theory Spec2Isabelle
  imports Complex_Main
begin

section \<open>Black-Scholes pricing of vanilla options (models/models.py)\<close>

text \<open>
  The program prices European options from a \<open>VanillaOption\<close> data class through two
  subclasses of \<open>BlackScholes\<close>: \<open>SpotPrice\<close> and \<open>ForwardPrice\<close>. Every output is a
  Python property that is recomputed from the fields of the option on each access.

  A property is a function from the contract to its result: it reads fields and returns
  a value or raises, and it writes nothing.

  Numbers. Python floats are read as exact real numbers: rounding, overflow and
  underflow of the 64-bit format are left out. What is kept is the way the
  arithmetic leaves the real numbers: a NumPy operation outside its domain does not raise
  but returns a special value, while a Python float division by zero and a date that does
  not parse raise an exception. Results that are stated exactly, as an equality, a strict
  sign or a strict order, are results over exact real arithmetic: in 64-bit floats sums
  cancel and the distribution function underflows to \<open>0.0\<close> far in the lower tail, so
  that two results closer than the rounding error can come out equal or in the other
  order, and a price smaller than the rounding error can come out as \<open>0.0\<close> or below.
\<close>

subsection \<open>Exceptions and float values\<close>

datatype exn = ValueError | ZeroDivisionError

text \<open>
  A float value is a real number \<open>Num x\<close>, the value \<open>NaN\<close>, or \<open>Infty\<close>. \<open>NaN\<close> is
  exact: every operation used here returns NaN on a NaN operand. \<open>Infty\<close> stands for
  plus or minus infinity and for every value computed from an infinity; what IEEE
  arithmetic makes of an infinity (a number, an infinity or NaN) is not followed further.
  So a result \<open>Num x\<close> says that the computation stayed within the real numbers and
  returned \<open>x\<close>; a result \<open>NaN\<close> says that the program returns NaN; and a result
  \<open>Infty\<close> says only that an infinity occurred on the way.
\<close>

datatype npfloat = Num real | NaN | Infty

fun lift1 :: "(real \<Rightarrow> real) \<Rightarrow> npfloat \<Rightarrow> npfloat" where
  "lift1 f (Num x) = Num (f x)"
| "lift1 f NaN = NaN"
| "lift1 f Infty = Infty"

fun lift2 :: "(real \<Rightarrow> real \<Rightarrow> real) \<Rightarrow> npfloat \<Rightarrow> npfloat \<Rightarrow> npfloat" where
  "lift2 f (Num x) (Num y) = Num (f x y)"
| "lift2 f NaN b = NaN"
| "lift2 f a NaN = NaN"
| "lift2 f a b = Infty"

fun np_divide :: "npfloat \<Rightarrow> npfloat \<Rightarrow> npfloat" where
  "np_divide (Num x) (Num y) =
     (if y \<noteq> 0 then Num (x / y) else if x = 0 then NaN else Infty)"
| "np_divide NaN b = NaN"
| "np_divide a NaN = NaN"
| "np_divide a b = Infty"

instantiation npfloat :: "{plus, minus, uminus, times, inverse}"
begin

definition plus_npfloat :: "npfloat \<Rightarrow> npfloat \<Rightarrow> npfloat" where
  "plus_npfloat a b = lift2 (\<lambda>x y. x + y) a b"

definition minus_npfloat :: "npfloat \<Rightarrow> npfloat \<Rightarrow> npfloat" where
  "minus_npfloat a b = lift2 (\<lambda>x y. x - y) a b"

definition uminus_npfloat :: "npfloat \<Rightarrow> npfloat" where
  "uminus_npfloat a = lift1 (\<lambda>x. - x) a"

definition times_npfloat :: "npfloat \<Rightarrow> npfloat \<Rightarrow> npfloat" where
  "times_npfloat a b = lift2 (\<lambda>x y. x * y) a b"

definition divide_npfloat :: "npfloat \<Rightarrow> npfloat \<Rightarrow> npfloat" where
  "divide_npfloat a b = np_divide a b"

definition inverse_npfloat :: "npfloat \<Rightarrow> npfloat" where
  "inverse_npfloat a = np_divide (Num 1) a"

instance ..

end

text \<open>\<open>np.log\<close>: minus infinity at zero, NaN below zero (with a warning, no exception).\<close>

fun np_log :: "npfloat \<Rightarrow> npfloat" where
  "np_log (Num x) = (if 0 < x then Num (ln x) else if x = 0 then Infty else NaN)"
| "np_log NaN = NaN"
| "np_log Infty = Infty"

text \<open>\<open>np.sqrt\<close>: NaN below zero.\<close>

fun np_sqrt :: "npfloat \<Rightarrow> npfloat" where
  "np_sqrt (Num x) = (if 0 \<le> x then Num (sqrt x) else NaN)"
| "np_sqrt NaN = NaN"
| "np_sqrt Infty = Infty"

definition np_exp :: "npfloat \<Rightarrow> npfloat" where
  "np_exp a = lift1 exp a"

text \<open>The division \<open>/\<close> of two Python floats raises at a zero divisor.\<close>

definition py_truediv :: "real \<Rightarrow> real \<Rightarrow> exn + real" where
  "py_truediv x y = (if y = 0 then Inl ZeroDivisionError else Inr (x / y))"

text \<open>An exception ends the evaluation of the property that raised it.\<close>

definition bind_exn :: "exn + 'a \<Rightarrow> ('a \<Rightarrow> exn + 'b) \<Rightarrow> exn + 'b" where
  "bind_exn m f = (case m of Inl e \<Rightarrow> Inl e | Inr v \<Rightarrow> f v)"

subsection \<open>The standard normal distribution function\<close>

text \<open>
  \<open>statistics.NormalDist().cdf (x)\<close> computes \<open>0.5 * (1.0 + erf (x / sqrt (2.0)))\<close> for
  the mean \<open>0\<close> and the deviation \<open>1\<close> of the default distribution. \<open>math.erf\<close> is the
  error function \<open>erf z = 2 / sqrt pi * integral of exp (- t\<^sup>2) from 0 to z\<close>, written
  here as its power series, the exponential series integrated term by term.
\<close>

definition erf :: "real \<Rightarrow> real" where
  "erf z = 2 / sqrt pi * (\<Sum>n. (- 1) ^ n * z ^ (2 * n + 1) / (fact n * real (2 * n + 1)))"

definition cdf :: "real \<Rightarrow> real" where
  "cdf x = 1 / 2 * (1 + erf (x / sqrt 2))"

definition NormalDist_cdf :: "npfloat \<Rightarrow> npfloat" where
  "NormalDist_cdf a = lift1 cdf a"

subsection \<open>Dates\<close>

text \<open>
  Modelled from the spec: \<open>pandas.to_datetime\<close> with the format \<open>%d.%m.%Y\<close> and the
  subtraction of two timestamps belong to an external library and are not part of the
  repository. The spec describes them as a date-parsing primitive that takes a string of
  the form \<open>DD.MM.YYYY\<close> to a calendar date, fails on anything else, and gives the
  difference of two dates as a count of days. A timestamp is a calendar date (the time
  of day is midnight), \<open>toordinal\<close> is its day number in the proleptic Gregorian
  calendar, and the difference of two timestamps in days is the difference of their day
  numbers. Strings that the library accepts beyond this form, and the range of years it
  can represent, are not modelled: the results about prices depend on the dates through
  the value of \<open>time_to_expiry\<close> only.
\<close>

record timestamp =
  ts_year :: nat
  ts_month :: nat
  ts_day :: nat

definition is_digit :: "char \<Rightarrow> bool" where
  "is_digit c = (48 \<le> (of_char c :: nat) \<and> (of_char c :: nat) \<le> 57)"

definition digit_val :: "char \<Rightarrow> nat" where
  "digit_val c = of_char c - 48"

definition decimal :: "string \<Rightarrow> nat" where
  "decimal s = foldl (\<lambda>acc c. 10 * acc + digit_val c) 0 s"

definition is_leap :: "nat \<Rightarrow> bool" where
  "is_leap y = (y mod 4 = 0 \<and> (y mod 100 \<noteq> 0 \<or> y mod 400 = 0))"

definition days_in_month :: "nat \<Rightarrow> nat \<Rightarrow> nat" where
  "days_in_month y m =
     (if m = 2 then (if is_leap y then 29 else 28)
      else if m = 4 \<or> m = 6 \<or> m = 9 \<or> m = 11 then 30 else 31)"

definition valid_date :: "nat \<Rightarrow> nat \<Rightarrow> nat \<Rightarrow> bool" where
  "valid_date y m d = (1 \<le> y \<and> 1 \<le> m \<and> m \<le> 12 \<and> 1 \<le> d \<and> d \<le> days_in_month y m)"

definition to_datetime :: "string \<Rightarrow> exn + timestamp" where
  "to_datetime s =
     (if length s = 10 \<and> s ! 2 = CHR ''.'' \<and> s ! 5 = CHR ''.''
         \<and> list_all is_digit (take 2 s @ take 2 (drop 3 s) @ drop 6 s)
      then
        (let d = decimal (take 2 s); m = decimal (take 2 (drop 3 s)); y = decimal (drop 6 s)
         in if valid_date y m d
            then Inr \<lparr>ts_year = y, ts_month = m, ts_day = d\<rparr>
            else Inl ValueError)
      else Inl ValueError)"

definition days_before_year :: "nat \<Rightarrow> int" where
  "days_before_year y =
     (let p = int y - 1 in p * 365 + p div 4 - p div 100 + p div 400)"

definition days_before_month :: "nat \<Rightarrow> nat \<Rightarrow> int" where
  "days_before_month y m = (\<Sum>k \<leftarrow> [1..<m]. int (days_in_month y k))"

definition toordinal :: "timestamp \<Rightarrow> int" where
  "toordinal t =
     days_before_year (ts_year t) + days_before_month (ts_year t) (ts_month t) + int (ts_day t)"

text \<open>\<open>(expiry - trade).days\<close>\<close>

definition delta_days :: "timestamp \<Rightarrow> timestamp \<Rightarrow> int" where
  "delta_days expiry trade = toordinal expiry - toordinal trade"

subsection \<open>The option contract\<close>

record VanillaOption =
  trade_date :: string
  expiry_date :: string
  spot_price :: real
  strike_price :: real
  risk_free_int :: real
  dividends :: real
  volatility :: real

definition time_to_expiry :: "VanillaOption \<Rightarrow> exn + real" where
  "time_to_expiry opt =
     bind_exn (to_datetime (expiry_date opt)) (\<lambda>expiry.
     bind_exn (to_datetime (trade_date opt)) (\<lambda>trade.
       Inr (real_of_int (delta_days expiry trade) / 365)))"

definition risk_free_cont :: "VanillaOption \<Rightarrow> npfloat" where
  "risk_free_cont opt = np_log (Num (1 + risk_free_int opt))"

subsection \<open>Class SpotPrice\<close>

definition SpotPrice_price :: "VanillaOption \<Rightarrow> real" where
  "SpotPrice_price opt = spot_price opt"

definition SpotPrice_d1 :: "VanillaOption \<Rightarrow> exn + npfloat" where
  "SpotPrice_d1 opt =
     bind_exn (py_truediv (SpotPrice_price opt) (strike_price opt)) (\<lambda>q.
     bind_exn (time_to_expiry opt) (\<lambda>t1.
     bind_exn (time_to_expiry opt) (\<lambda>t2.
       Inr ((np_log (Num q)
              + Num t1 * (risk_free_cont opt + Num ((volatility opt)\<^sup>2 / 2)))
            / (Num (volatility opt) * np_sqrt (Num t2))))))"

definition SpotPrice_d2 :: "VanillaOption \<Rightarrow> exn + npfloat" where
  "SpotPrice_d2 opt =
     bind_exn (SpotPrice_d1 opt) (\<lambda>d1.
     bind_exn (time_to_expiry opt) (\<lambda>t.
       Inr (d1 - Num (volatility opt) * np_sqrt (Num t))))"

definition SpotPrice_call :: "VanillaOption \<Rightarrow> exn + npfloat" where
  "SpotPrice_call opt =
     bind_exn (SpotPrice_d1 opt) (\<lambda>d1.
     bind_exn (SpotPrice_d2 opt) (\<lambda>d2.
     bind_exn (time_to_expiry opt) (\<lambda>t.
       Inr (NormalDist_cdf d1 * Num (SpotPrice_price opt)
            - NormalDist_cdf d2 * Num (strike_price opt)
              * np_exp (- risk_free_cont opt * Num t)))))"

text \<open>Both properties are a bare \<open>return\<close>: the result is Python's \<open>None\<close>.\<close>

definition SpotPrice_put :: "VanillaOption \<Rightarrow> exn + npfloat option" where
  "SpotPrice_put opt = Inr None"

definition SpotPrice_put_from_parity :: "VanillaOption \<Rightarrow> exn + npfloat option" where
  "SpotPrice_put_from_parity opt = Inr None"

subsection \<open>Class ForwardPrice\<close>

definition ForwardPrice_price :: "VanillaOption \<Rightarrow> exn + npfloat" where
  "ForwardPrice_price opt =
     bind_exn (time_to_expiry opt) (\<lambda>t.
       Inr (Num (spot_price opt) * np_exp (risk_free_cont opt * Num t)))"

definition ForwardPrice_d1 :: "VanillaOption \<Rightarrow> exn + npfloat" where
  "ForwardPrice_d1 opt =
     bind_exn (ForwardPrice_price opt) (\<lambda>price.
     bind_exn (time_to_expiry opt) (\<lambda>t1.
     bind_exn (time_to_expiry opt) (\<lambda>t2.
       Inr ((np_log (price / Num (strike_price opt))
              + Num (t1 * (volatility opt)\<^sup>2 / 2))
            / (Num (volatility opt) * np_sqrt (Num t2))))))"

definition ForwardPrice_d2 :: "VanillaOption \<Rightarrow> exn + npfloat" where
  "ForwardPrice_d2 opt =
     bind_exn (ForwardPrice_d1 opt) (\<lambda>d1.
     bind_exn (time_to_expiry opt) (\<lambda>t.
       Inr (d1 - Num (volatility opt) * np_sqrt (Num t))))"

definition ForwardPrice_call :: "VanillaOption \<Rightarrow> exn + npfloat" where
  "ForwardPrice_call opt =
     bind_exn (ForwardPrice_d1 opt) (\<lambda>d1.
     bind_exn (ForwardPrice_price opt) (\<lambda>price.
     bind_exn (ForwardPrice_d2 opt) (\<lambda>d2.
     bind_exn (time_to_expiry opt) (\<lambda>t.
       Inr ((NormalDist_cdf d1 * price - NormalDist_cdf d2 * Num (strike_price opt))
            * np_exp (- risk_free_cont opt * Num t))))))"

definition ForwardPrice_put :: "VanillaOption \<Rightarrow> exn + npfloat" where
  "ForwardPrice_put opt =
     bind_exn (ForwardPrice_d2 opt) (\<lambda>d2.
     bind_exn (ForwardPrice_d1 opt) (\<lambda>d1.
     bind_exn (ForwardPrice_price opt) (\<lambda>price.
     bind_exn (time_to_expiry opt) (\<lambda>t.
       Inr ((NormalDist_cdf (- d2) * Num (strike_price opt) - NormalDist_cdf (- d1) * price)
            * np_exp (- risk_free_cont opt * Num t))))))"

definition ForwardPrice_put_from_parity :: "VanillaOption \<Rightarrow> exn + npfloat" where
  "ForwardPrice_put_from_parity opt =
     bind_exn (ForwardPrice_call opt) (\<lambda>call.
     bind_exn (time_to_expiry opt) (\<lambda>t.
       Inr (call - Num (spot_price opt)
            + Num (strike_price opt) * np_exp (- risk_free_cont opt * Num t))))"

subsection \<open>The formulas of the specification\<close>

text \<open>
  The closed forms as the specification writes them, over the real numbers, in the
  spot price \<open>S\<close>, the strike \<open>K\<close>, the continuous rate \<open>r\<close>, the time to expiry \<open>T\<close>
  and the volatility \<open>v\<close>.
\<close>

definition spec_forward_price :: "real \<Rightarrow> real \<Rightarrow> real \<Rightarrow> real" where
  "spec_forward_price S r T = S * exp (r * T)"

definition spec_forward_d1 :: "real \<Rightarrow> real \<Rightarrow> real \<Rightarrow> real \<Rightarrow> real" where
  "spec_forward_d1 price K T v = (ln (price / K) + T * v\<^sup>2 / 2) / (v * sqrt T)"

definition spec_spot_d1 :: "real \<Rightarrow> real \<Rightarrow> real \<Rightarrow> real \<Rightarrow> real \<Rightarrow> real" where
  "spec_spot_d1 price K r T v = (ln (price / K) + T * (r + v\<^sup>2 / 2)) / (v * sqrt T)"

definition spec_d2 :: "real \<Rightarrow> real \<Rightarrow> real \<Rightarrow> real" where
  "spec_d2 d1 T v = d1 - v * sqrt T"

definition spec_forward_call :: "real \<Rightarrow> real \<Rightarrow> real \<Rightarrow> real \<Rightarrow> real \<Rightarrow> real \<Rightarrow> real" where
  "spec_forward_call d1 d2 price K r T = (cdf d1 * price - cdf d2 * K) * exp (- r * T)"

definition spec_forward_put :: "real \<Rightarrow> real \<Rightarrow> real \<Rightarrow> real \<Rightarrow> real \<Rightarrow> real \<Rightarrow> real" where
  "spec_forward_put d1 d2 price K r T = (cdf (- d2) * K - cdf (- d1) * price) * exp (- r * T)"

definition spec_spot_call :: "real \<Rightarrow> real \<Rightarrow> real \<Rightarrow> real \<Rightarrow> real \<Rightarrow> real \<Rightarrow> real" where
  "spec_spot_call d1 d2 price K r T = cdf d1 * price - cdf d2 * K * exp (- r * T)"

text \<open>
  The formulas are defined over the real numbers when the dates parse to a time to
  expiry \<open>T\<close>, the continuous rate is a real number \<open>r\<close>, the strike is not zero, the
  quotient of spot and strike has a logarithm, and the divisor \<open>v * sqrt T\<close> is
  defined and not zero.
\<close>

definition real_domain :: "VanillaOption \<Rightarrow> real \<Rightarrow> real \<Rightarrow> bool" where
  "real_domain opt T r \<longleftrightarrow>
     time_to_expiry opt = Inr T \<and> risk_free_cont opt = Num r \<and> strike_price opt \<noteq> 0
     \<and> 0 < spot_price opt / strike_price opt \<and> 0 < T \<and> volatility opt \<noteq> 0"

subsection \<open>Comparisons of results\<close>


definition within_tolerance :: "exn + npfloat \<Rightarrow> exn + npfloat \<Rightarrow> bool" where
  "within_tolerance a b =
     (case (a, b) of (Inr (Num x), Inr (Num y)) \<Rightarrow> \<bar>x - y\<bar> \<le> 1 / 10 ^ 4 | _ \<Rightarrow> False)"

subsection \<open>The scenarios of models/test.py\<close>

definition itm :: VanillaOption where
  "itm = \<lparr>trade_date = ''23.11.2022'', expiry_date = ''10.05.2023'', spot_price = 110,
          strike_price = 100, risk_free_int = 5 / 1000, dividends = 0, volatility = 3 / 10\<rparr>"


definition otm :: VanillaOption where
  "otm = \<lparr>trade_date = ''23.11.2022'', expiry_date = ''10.05.2023'', spot_price = 100,
          strike_price = 110, risk_free_int = 5 / 1000, dividends = 0, volatility = 3 / 10\<rparr>"

text \<open>Further contracts: rates at or below minus one hundred percent, and negative rates.\<close>

definition itm_rate_minus_2 :: VanillaOption where
  "itm_rate_minus_2 = itm\<lparr>risk_free_int := - 2\<rparr>"


definition otm_rate_minus_5 :: VanillaOption where
  "otm_rate_minus_5 = otm\<lparr>risk_free_int := - 5\<rparr>"




subsection \<open>Auxiliary functions of the analysis\<close>

text \<open>
  The coefficients of the power series of \<open>erf\<close> and of \<open>exp (- z\<^sup>2)\<close>; the area
  \<open>gauss_area x\<close> under \<open>exp (- t\<^sup>2 / 2)\<close> between \<open>0\<close> and \<open>x\<close>; its least upper bound
  \<open>half_mass\<close>, the area over the positive half line; and two finite sums in \<open>n\<close> steps
  that approximate integrals: \<open>gauss_right n x\<close> is the sum for \<open>gauss_area x\<close> with the
  right end points, and \<open>gauss_aux n x\<close> the sum for twice the integral of
  \<open>exp (- x\<^sup>2 * (1 + t\<^sup>2) / 2) / (1 + t\<^sup>2)\<close> over \<open>t\<close> from \<open>0\<close> to \<open>1\<close>.
\<close>

definition erf_coeff :: "nat \<Rightarrow> real" where
  "erf_coeff k = (if odd k then (- 1) ^ (k div 2) / (fact (k div 2) * real k) else 0)"

definition exp_square_coeff :: "nat \<Rightarrow> real" where
  "exp_square_coeff k = (if even k then (- 1) ^ (k div 2) / fact (k div 2) else 0)"

definition gauss_area :: "real \<Rightarrow> real" where
  "gauss_area x = sqrt (pi / 2) * erf (x / sqrt 2)"

definition half_mass :: real where
  "half_mass = Sup (range gauss_area)"

definition gauss_aux :: "nat \<Rightarrow> real \<Rightarrow> real" where
  "gauss_aux n x =
     2 / real n * (\<Sum>k<n. exp (- (x\<^sup>2 * (1 + (real (Suc k) / real n)\<^sup>2)) / 2)
                          / (1 + (real (Suc k) / real n)\<^sup>2))"

definition gauss_right :: "nat \<Rightarrow> real \<Rightarrow> real" where
  "gauss_right n x = x / real n * (\<Sum>k<n. exp (- ((real (Suc k) * (x / real n))\<^sup>2) / 2))"

section \<open>The distribution function\<close>

subsection \<open>The error function and the area under the density\<close>

lemma strict_mono_double: "strict_mono (\<lambda>n::nat. 2 * n)"
  by (simp add: strict_mono_def)

lemma strict_mono_double_succ: "strict_mono (\<lambda>n::nat. 2 * n + 1)"
  by (simp add: strict_mono_def)

lemma odd_not_double: "n \<notin> range (\<lambda>n::nat. 2 * n) \<Longrightarrow> odd n"
  by (auto elim!: evenE)

lemma even_not_double_succ:
  assumes "n \<notin> range (\<lambda>n::nat. 2 * n + 1)"
  shows "even n"
proof (rule ccontr)
  assume "odd n"
  then obtain k where "n = 2 * k + 1" by (elim oddE)
  then have "n \<in> range (\<lambda>n::nat. 2 * n + 1)" by (intro range_eqI)
  with assms show False by simp
qed

lemma erf_power_series: "erf z = 2 / sqrt pi * (\<Sum>k. erf_coeff k * z ^ k)"
proof -
  have "(\<Sum>n. erf_coeff (2 * n + 1) * z ^ (2 * n + 1)) = (\<Sum>k. erf_coeff k * z ^ k)"
  proof (rule suminf_mono_reindex [OF strict_mono_double_succ, of "\<lambda>k. erf_coeff k * z ^ k"])
    fix k :: nat assume "k \<notin> range (\<lambda>n. 2 * n + 1)"
    then have "even k" by (rule even_not_double_succ)
    then show "erf_coeff k * z ^ k = 0" by (simp add: erf_coeff_def)
  qed
  moreover have "erf_coeff (2 * n + 1) * z ^ (2 * n + 1)
      = (- 1) ^ n * z ^ (2 * n + 1) / (fact n * real (2 * n + 1))" for n
    by (simp add: erf_coeff_def)
  ultimately show ?thesis by (simp only: erf_def)
qed

lemma exp_square_series: "(\<lambda>n. exp_square_coeff n * z ^ n) sums exp (- (z\<^sup>2))"
proof -
  have "(\<lambda>n. (- (z\<^sup>2)) ^ n /\<^sub>R fact n) sums exp (- (z\<^sup>2))"
    by (rule exp_converges)
  moreover have "(\<lambda>n. (- (z\<^sup>2)) ^ n /\<^sub>R fact n) = (\<lambda>n. exp_square_coeff (2 * n) * z ^ (2 * n))"
  proof (rule ext)
    fix n
    have "exp_square_coeff (2 * n) * z ^ (2 * n) = ((- 1) ^ n * (z\<^sup>2) ^ n) / fact n"
      by (simp add: exp_square_coeff_def power_mult)
    also have "(- 1) ^ n * (z\<^sup>2) ^ n = ((- 1) * z\<^sup>2) ^ n"
      by (rule power_mult_distrib [symmetric])
    also have "(- 1) * z\<^sup>2 = - (z\<^sup>2)"
      by simp
    finally show "(- (z\<^sup>2)) ^ n /\<^sub>R fact n = exp_square_coeff (2 * n) * z ^ (2 * n)"
      by (simp only: real_scaleR_def divide_inverse mult.commute)
  qed
  ultimately have "(\<lambda>n. exp_square_coeff (2 * n) * z ^ (2 * n)) sums exp (- (z\<^sup>2))"
    by simp
  moreover have "exp_square_coeff n * z ^ n = 0" if "n \<notin> range (\<lambda>n::nat. 2 * n)" for n
    using odd_not_double [OF that] by (simp add: exp_square_coeff_def)
  ultimately show ?thesis
    using sums_mono_reindex [OF strict_mono_double, of "\<lambda>n. exp_square_coeff n * z ^ n"] by blast
qed

lemma exp_square_abs_summable: "summable (\<lambda>n. \<bar>exp_square_coeff n * z ^ n\<bar>)"
proof -
  have "summable (\<lambda>n. (z\<^sup>2) ^ n /\<^sub>R fact n)"
    using exp_converges [of "z\<^sup>2"] by (rule sums_summable)
  moreover have "(\<lambda>n. (z\<^sup>2) ^ n /\<^sub>R fact n) = (\<lambda>n. \<bar>exp_square_coeff (2 * n) * z ^ (2 * n)\<bar>)"
  proof (rule ext)
    fix n
    have "\<bar>exp_square_coeff (2 * n) * z ^ (2 * n)\<bar> = (z\<^sup>2) ^ n / fact n"
      by (simp add: exp_square_coeff_def power_mult abs_mult power_abs)
    then show "(z\<^sup>2) ^ n /\<^sub>R fact n = \<bar>exp_square_coeff (2 * n) * z ^ (2 * n)\<bar>"
      by (simp only: real_scaleR_def divide_inverse mult.commute)
  qed
  ultimately have "summable (\<lambda>n. \<bar>exp_square_coeff (2 * n) * z ^ (2 * n)\<bar>)"
    by simp
  moreover have "\<bar>exp_square_coeff n * z ^ n\<bar> = 0" if "n \<notin> range (\<lambda>n::nat. 2 * n)" for n
    using odd_not_double [OF that] by (simp add: exp_square_coeff_def)
  ultimately show ?thesis
    using summable_mono_reindex [OF strict_mono_double, of "\<lambda>n. \<bar>exp_square_coeff n * z ^ n\<bar>"]
    by blast
qed

lemma erf_coeff_Suc: "erf_coeff (Suc n) = exp_square_coeff n / real (Suc n)"
  by (simp add: erf_coeff_def exp_square_coeff_def)

lemma erf_summable: "summable (\<lambda>n. erf_coeff n * z ^ n)"
proof -
  have "summable (\<lambda>n. \<bar>z\<bar> * \<bar>exp_square_coeff n * z ^ n\<bar>)"
    by (rule summable_mult [OF exp_square_abs_summable])
  moreover have "norm (erf_coeff (Suc n) * z ^ Suc n) \<le> \<bar>z\<bar> * \<bar>exp_square_coeff n * z ^ n\<bar>" for n
  proof -
    have "\<bar>exp_square_coeff n\<bar> / real (Suc n) \<le> \<bar>exp_square_coeff n\<bar>"
      by (simp add: divide_le_eq mult_le_cancel_left1)
    then have "\<bar>z\<bar> * \<bar>z ^ n\<bar> * (\<bar>exp_square_coeff n\<bar> / real (Suc n))
        \<le> \<bar>z\<bar> * \<bar>z ^ n\<bar> * \<bar>exp_square_coeff n\<bar>"
      by (intro mult_left_mono) auto
    then show ?thesis
      by (simp add: erf_coeff_Suc abs_mult mult_ac)
  qed
  ultimately have "summable (\<lambda>n. erf_coeff (Suc n) * z ^ Suc n)"
    by (rule summable_comparison_test' [where N = 0])
  then show ?thesis
    by (subst (asm) summable_Suc_iff)
qed

lemma diffs_erf_coeff: "diffs erf_coeff = exp_square_coeff"
  by (rule ext) (simp add: diffs_def erf_coeff_Suc)

lemma erf_deriv: "DERIV erf z :> 2 / sqrt pi * exp (- (z\<^sup>2))"
proof -
  have "DERIV (\<lambda>z. \<Sum>n. erf_coeff n * z ^ n) z :> (\<Sum>n. diffs erf_coeff n * z ^ n)"
    by (rule termdiffs_strong_converges_everywhere) (rule erf_summable)
  moreover have "(\<Sum>n. diffs erf_coeff n * z ^ n) = exp (- (z\<^sup>2))"
    unfolding diffs_erf_coeff using exp_square_series by (rule sums_unique [symmetric])
  ultimately have "DERIV (\<lambda>z. 2 / sqrt pi * (\<Sum>n. erf_coeff n * z ^ n)) z
      :> 2 / sqrt pi * exp (- (z\<^sup>2))"
    by (intro DERIV_cmult) simp
  moreover have "erf = (\<lambda>z. 2 / sqrt pi * (\<Sum>n. erf_coeff n * z ^ n))"
    by (rule ext) (rule erf_power_series)
  ultimately show ?thesis by simp
qed

lemma erf_zero: "erf 0 = 0"
  by (simp add: erf_def)

lemma erf_odd: "erf (- z) = - erf z"
proof -
  have "(- 1) ^ n * (- z) ^ (2 * n + 1) / (fact n * real (2 * n + 1))
      = - ((- 1) ^ n * z ^ (2 * n + 1) / (fact n * real (2 * n + 1)))" for n
    by simp
  moreover have "summable (\<lambda>n. (- 1) ^ n * z ^ (2 * n + 1) / (fact n * real (2 * n + 1)))"
  proof -
    have "summable (\<lambda>n. erf_coeff (2 * n + 1) * z ^ (2 * n + 1))"
    proof (subst summable_mono_reindex [OF strict_mono_double_succ, of "\<lambda>k. erf_coeff k * z ^ k"])
      fix k :: nat assume "k \<notin> range (\<lambda>n. 2 * n + 1)"
      then have "even k" by (rule even_not_double_succ)
      then show "erf_coeff k * z ^ k = 0" by (simp add: erf_coeff_def)
    qed (rule erf_summable)
    then show ?thesis by (simp add: erf_coeff_def)
  qed
  ultimately show ?thesis
    by (simp only: erf_def suminf_minus mult_minus_right)
qed

lemma gauss_area_deriv: "DERIV gauss_area x :> exp (- (x\<^sup>2) / 2)"
proof -
  have 1: "DERIV (\<lambda>x. x / sqrt 2) x :> 1 / sqrt 2"
    by (rule DERIV_cdivide [OF DERIV_ident])
  have 2: "DERIV erf (x / sqrt 2) :> 2 / sqrt pi * exp (- ((x / sqrt 2)\<^sup>2))"
    by (rule erf_deriv)
  have "DERIV (\<lambda>x. sqrt (pi / 2) * erf (x / sqrt 2)) x
      :> sqrt (pi / 2) * (2 / sqrt pi * exp (- ((x / sqrt 2)\<^sup>2)) * (1 / sqrt 2))"
    by (intro DERIV_cmult DERIV_chain' [OF 1 2])
  moreover have "(x / sqrt 2)\<^sup>2 = x\<^sup>2 / 2"
    by (simp add: power_divide)
  moreover have "sqrt (pi / 2) * (2 / sqrt pi * e * (1 / sqrt 2)) = e" for e :: real
    by (simp add: real_sqrt_divide field_simps)
  moreover have "gauss_area = (\<lambda>x. sqrt (pi / 2) * erf (x / sqrt 2))"
    by (rule ext) (simp add: gauss_area_def)
  ultimately show ?thesis by simp
qed

lemma gauss_area_zero: "gauss_area 0 = 0"
  by (simp add: gauss_area_def erf_zero)

lemma gauss_area_odd: "gauss_area (- x) = - gauss_area x"
  by (simp add: gauss_area_def erf_odd)

lemma gauss_area_strict_mono: "a < b \<Longrightarrow> gauss_area a < gauss_area b"
  by (rule DERIV_pos_imp_increasing [of a b gauss_area])
     (auto intro!: exI [of _ "exp (- (x\<^sup>2) / 2)" for x] gauss_area_deriv)

subsection \<open>The total mass\<close>

lemma gauss_area_bound_pos:
  assumes "0 \<le> x"
  shows "gauss_area x \<le> exp (1 / 2)"
proof -
  let ?W = "\<lambda>t. gauss_area t + exp (1 / 2 - t)"
  have W: "\<exists>y. DERIV ?W t :> y \<and> y \<le> 0" for t
  proof -
    have "DERIV ?W t :> exp (- (t\<^sup>2) / 2) + exp (1 / 2 - t) * (0 - 1)"
      by (intro DERIV_add gauss_area_deriv DERIV_chain' [where g = exp] derivative_intros DERIV_exp) 
    moreover have "1 / 2 - t - (- (t\<^sup>2) / 2) = (t - 1)\<^sup>2 / 2"
      by (simp add: power2_eq_square algebra_simps)
    then have "- (t\<^sup>2) / 2 \<le> 1 / 2 - t"
      by (smt (verit) zero_le_power2 divide_nonneg_pos)
    then have "exp (- (t\<^sup>2) / 2) \<le> exp (1 / 2 - t)" by simp
    ultimately show ?thesis by (intro exI conjI) (assumption, simp)
  qed
  have "?W x \<le> ?W 0"
    by (rule DERIV_nonpos_imp_nonincreasing [OF assms]) (use W in blast)
  then have "gauss_area x + exp (1 / 2 - x) \<le> exp (1 / 2)"
    by (simp add: gauss_area_zero)
  moreover have "0 < exp (1 / 2 - x)" by simp
  ultimately show ?thesis by linarith
qed

lemma gauss_area_bound: "gauss_area x \<le> exp (1 / 2)"
proof (cases "0 \<le> x")
  case True
  then show ?thesis by (rule gauss_area_bound_pos)
next
  case False
  then have "gauss_area x < gauss_area 0" by (intro gauss_area_strict_mono) simp
  also have "\<dots> = 0" by (rule gauss_area_zero)
  also have "(0::real) \<le> exp (1 / 2)" by simp
  finally show ?thesis by simp
qed

lemma bdd_above_gauss_area: "bdd_above (range gauss_area)"
  by (rule bdd_aboveI [where M = "exp (1 / 2)"]) (auto simp: gauss_area_bound)

lemma gauss_area_le_half_mass: "gauss_area x \<le> half_mass"
  unfolding half_mass_def by (rule cSup_upper [OF rangeI bdd_above_gauss_area])

lemma gauss_area_less_half_mass: "gauss_area x < half_mass"
proof -
  have "gauss_area x < gauss_area (x + 1)" by (rule gauss_area_strict_mono) simp
  also have "\<dots> \<le> half_mass" by (rule gauss_area_le_half_mass)
  finally show ?thesis .
qed

lemma half_mass_least: "(\<And>x. gauss_area x \<le> B) \<Longrightarrow> half_mass \<le> B"
  unfolding half_mass_def by (rule cSup_least) auto

lemma half_mass_pos: "0 < half_mass"
  using gauss_area_less_half_mass [of 0] by (simp add: gauss_area_zero)

lemma neg_half_mass_less: "- half_mass < gauss_area x"
  using gauss_area_less_half_mass [of "- x"] by (simp add: gauss_area_odd)

text \<open>
  The tail beyond \<open>y > 0\<close> is smaller than \<open>exp (- y\<^sup>2 / 2) / y\<close>: the sum of the area
  and this bound decreases in \<open>y\<close> and stays above every area.
\<close>

lemma tail_bound:
  assumes "0 < y"
  shows "half_mass < gauss_area y + exp (- (y\<^sup>2) / 2) / y"
proof -
  let ?U = "\<lambda>t. gauss_area t + exp (- (t\<^sup>2) / 2) / t"
  have U: "\<exists>d. DERIV ?U t :> d \<and> d < 0" if "0 < t" for t
  proof -
    have "DERIV ?U t :> exp (- (t\<^sup>2) / 2) + (exp (- (t\<^sup>2) / 2) * (- t) * t - exp (- (t\<^sup>2) / 2) * 1) / (t * t)"
      using that by (auto intro!: derivative_eq_intros gauss_area_deriv simp: power2_eq_square)
    moreover have "exp (- (t\<^sup>2) / 2) + (exp (- (t\<^sup>2) / 2) * (- t) * t - exp (- (t\<^sup>2) / 2) * 1) / (t * t)
        = - exp (- (t\<^sup>2) / 2) / (t * t)"
      using that by (simp add: field_simps)
    moreover have "- exp (- (t\<^sup>2) / 2) / (t * t) < 0"
      using that by (simp add: divide_neg_pos)
    ultimately show ?thesis by (intro exI conjI) (simp, simp)
  qed
  have dec: "?U b < ?U a" if "0 < a" "a < b" for a b
    by (rule DERIV_neg_imp_decreasing [OF that(2)]) (use U that in force)
  have "gauss_area z \<le> ?U (y + 1)" for z
  proof (cases "z \<le> y + 1")
    case True
    then have "gauss_area z \<le> gauss_area (y + 1)"
      using gauss_area_strict_mono [of z "y + 1"] by (cases "z = y + 1") auto
    also have "\<dots> \<le> ?U (y + 1)" using assms by simp
    finally show ?thesis .
  next
    case False
    then have z: "y + 1 < z" "0 < z" using assms by auto
    have "gauss_area z \<le> ?U z" using z by simp
    also have "\<dots> < ?U (y + 1)" using dec [of "y + 1" z] z assms by simp
    finally show ?thesis by simp
  qed
  then have "half_mass \<le> ?U (y + 1)" by (rule half_mass_least)
  also have "\<dots> < ?U y" using dec [of y "y + 1"] assms by simp
  finally show ?thesis .
qed

subsection \<open>The value of the total mass\<close>

text \<open>
  The area over the positive half line is \<open>sqrt (pi / 2)\<close>. The square of the area up
  to \<open>x\<close> plus twice the integral of \<open>exp (- x\<^sup>2 * (1 + t\<^sup>2) / 2) / (1 + t\<^sup>2)\<close> over
  \<open>t\<close> from \<open>0\<close> to \<open>1\<close> does not depend on \<open>x\<close>; at \<open>0\<close> it is \<open>2 * arctan 1\<close>, and for large
  \<open>x\<close> the integral vanishes. The integrals are replaced by sums in \<open>n\<close> steps, whose
  error is of the order \<open>1 / n\<close>: a function with a decreasing derivative lies between the
  sums with the left and the right end points.
\<close>

lemma deriv_upper_step:
  fixes E f :: "real \<Rightarrow> real"
  assumes "a \<le> b" and d: "\<And>t. a \<le> t \<Longrightarrow> t \<le> b \<Longrightarrow> DERIV E t :> f t"
    and u: "\<And>t. a \<le> t \<Longrightarrow> t \<le> b \<Longrightarrow> f t \<le> M"
  shows "E b - E a \<le> M * (b - a)"
proof -
  have "\<exists>y. DERIV (\<lambda>t. E t - M * t) t :> y \<and> y \<le> 0" if "a \<le> t" "t \<le> b" for t
  proof (intro exI conjI)
    show "DERIV (\<lambda>t. E t - M * t) t :> f t - M"
      by (auto intro!: derivative_eq_intros d that)
    show "f t - M \<le> 0" using u [OF that] by simp
  qed
  then have "E b - M * b \<le> E a - M * a"
    by (rule DERIV_nonpos_imp_nonincreasing [OF assms(1)])
  then show ?thesis by (simp add: algebra_simps)
qed

lemma deriv_lower_step:
  fixes E f :: "real \<Rightarrow> real"
  assumes "a \<le> b" and d: "\<And>t. a \<le> t \<Longrightarrow> t \<le> b \<Longrightarrow> DERIV E t :> f t"
    and l: "\<And>t. a \<le> t \<Longrightarrow> t \<le> b \<Longrightarrow> m \<le> f t"
  shows "m * (b - a) \<le> E b - E a"
proof -
  have "(\<lambda>t. - E t) b - (\<lambda>t. - E t) a \<le> (- m) * (b - a)"
  proof (rule deriv_upper_step [OF assms(1), where f = "\<lambda>t. - f t"])
    show "DERIV (\<lambda>t. - E t) t :> - f t" if "a \<le> t" "t \<le> b" for t
      by (auto intro!: derivative_eq_intros d that)
    show "- f t \<le> - m" if "a \<le> t" "t \<le> b" for t
      using l [OF that] by simp
  qed
  then show ?thesis by simp
qed

lemma riemann_upper:
  fixes E f :: "real \<Rightarrow> real"
  assumes h: "0 \<le> h" and d: "\<And>t. 0 \<le> t \<Longrightarrow> DERIV E t :> f t"
    and mono: "\<And>s t. 0 \<le> s \<Longrightarrow> s \<le> t \<Longrightarrow> f t \<le> f s"
  shows "E (real m * h) - E 0 \<le> h * (\<Sum>k<m. f (real k * h))"
proof (induction m)
  case 0
  show ?case by simp
next
  case (Suc m)
  have le: "real m * h \<le> real (Suc m) * h" using h by (simp add: algebra_simps)
  have nn: "0 \<le> real m * h" using h by simp
  have "E (real (Suc m) * h) - E (real m * h) \<le> f (real m * h) * (real (Suc m) * h - real m * h)"
  proof (rule deriv_upper_step [where f = f, OF le])
    show "DERIV E t :> f t" if "real m * h \<le> t" for t
      using that nn by (intro d) simp
    show "f t \<le> f (real m * h)" if "real m * h \<le> t" for t
      using that nn by (intro mono)
  qed
  also have "real (Suc m) * h - real m * h = h" by (simp add: algebra_simps)
  finally show ?case using Suc by (simp add: algebra_simps)
qed

lemma riemann_lower:
  fixes E f :: "real \<Rightarrow> real"
  assumes h: "0 \<le> h" and d: "\<And>t. 0 \<le> t \<Longrightarrow> DERIV E t :> f t"
    and mono: "\<And>s t. 0 \<le> s \<Longrightarrow> s \<le> t \<Longrightarrow> f t \<le> f s"
  shows "h * (\<Sum>k<m. f (real (Suc k) * h)) \<le> E (real m * h) - E 0"
proof (induction m)
  case 0
  show ?case by simp
next
  case (Suc m)
  have le: "real m * h \<le> real (Suc m) * h" using h by (simp add: algebra_simps)
  have nn: "0 \<le> real m * h" using h by simp
  have "f (real (Suc m) * h) * (real (Suc m) * h - real m * h) \<le> E (real (Suc m) * h) - E (real m * h)"
  proof (rule deriv_lower_step [where f = f, OF le])
    show "DERIV E t :> f t" if "real m * h \<le> t" for t
      using that nn by (intro d) simp
    show "f (real (Suc m) * h) \<le> f t" if "real m * h \<le> t" "t \<le> real (Suc m) * h" for t
      using that nn by (intro mono) simp_all
  qed
  moreover have "real (Suc m) * h - real m * h = h" by (simp add: algebra_simps)
  ultimately show ?case using Suc by (simp add: algebra_simps)
qed

lemma riemann_gap:
  fixes f :: "real \<Rightarrow> real"
  shows "(\<Sum>k<m. f (real k * h)) - (\<Sum>k<m. f (real (Suc k) * h)) = f 0 - f (real m * h)"
  by (induction m) (simp_all add: algebra_simps)

lemma riemann_right:
  fixes E f :: "real \<Rightarrow> real"
  assumes x: "0 \<le> x" and n: "0 < n" and d: "\<And>t. 0 \<le> t \<Longrightarrow> DERIV E t :> f t"
    and mono: "\<And>s t. 0 \<le> s \<Longrightarrow> s \<le> t \<Longrightarrow> f t \<le> f s"
  defines "R \<equiv> x / real n * (\<Sum>k<n. f (real (Suc k) * (x / real n)))"
  shows "R \<le> E x - E 0" "E x - E 0 \<le> R + x / real n * (f 0 - f x)"
proof -
  have h: "0 \<le> x / real n" using x by simp
  have nx: "real n * (x / real n) = x" using n by simp
  show "R \<le> E x - E 0"
    using riemann_lower [OF h d mono, of n] unfolding nx R_def .
  have "E x - E 0 \<le> x / real n * (\<Sum>k<n. f (real k * (x / real n)))"
    using riemann_upper [OF h d mono, of n] unfolding nx .
  also have "\<dots> = R + x / real n * (f 0 - f x)"
  proof -
    have "(\<Sum>k<n. f (real k * (x / real n)))
        = (\<Sum>k<n. f (real (Suc k) * (x / real n))) + (f 0 - f x)"
      using riemann_gap [where f = f and m = n and h = "x / real n"] unfolding nx by linarith
    then show ?thesis
      unfolding R_def by (simp only: distrib_left)
  qed
  finally show "E x - E 0 \<le> R + x / real n * (f 0 - f x)" .
qed

lemma gauss_density_mono:
  fixes s t :: real
  assumes "0 \<le> s" "s \<le> t"
  shows "exp (- (t\<^sup>2) / 2) \<le> exp (- (s\<^sup>2) / 2)"
proof -
  have "s\<^sup>2 \<le> t\<^sup>2" using assms by (intro power_mono)
  then show ?thesis by simp
qed

lemma gauss_right_bounds:
  assumes "0 \<le> x" "0 < n"
  shows "gauss_right n x \<le> gauss_area x" "gauss_area x \<le> gauss_right n x + x / real n"
proof -
  note b = riemann_right [where E = gauss_area and f = "\<lambda>t. exp (- (t\<^sup>2) / 2)", OF assms
      gauss_area_deriv gauss_density_mono]
  show "gauss_right n x \<le> gauss_area x"
    using b(1) by (simp add: gauss_right_def gauss_area_zero)
  have "gauss_area x \<le> gauss_right n x + x / real n * (1 - exp (- (x\<^sup>2) / 2))"
    using b(2) by (simp add: gauss_right_def gauss_area_zero)
  also have "x / real n * (1 - exp (- (x\<^sup>2) / 2)) \<le> x / real n * 1"
    using assms by (intro mult_left_mono) simp_all
  finally show "gauss_area x \<le> gauss_right n x + x / real n" by simp
qed

lemma gauss_aux_term_deriv:
  fixes a :: real
  shows "DERIV (\<lambda>x. exp (- (x\<^sup>2 * (1 + a\<^sup>2)) / 2) / (1 + a\<^sup>2)) x
      :> - (x * (exp (- (x\<^sup>2) / 2) * exp (- ((a * x)\<^sup>2) / 2)))"
proof -
  define c where "c = 1 + a\<^sup>2"
  have c: "0 < c" by (simp add: c_def add_pos_nonneg)
  have "DERIV (\<lambda>x. exp (- (x\<^sup>2 * c) / 2) / c) x
      :> exp (- (x\<^sup>2 * c) / 2) * (- (2 * x * c) / 2) / c"
    using c by (auto intro!: derivative_eq_intros)
  moreover have "exp (- (x\<^sup>2 * c) / 2) * (- (2 * x * c) / 2) / c = - (x * exp (- (x\<^sup>2 * c) / 2))"
    using c by simp
  moreover have "- (x\<^sup>2 * c) / 2 = - (x\<^sup>2) / 2 + - ((a * x)\<^sup>2) / 2"
    by (simp add: c_def power_mult_distrib field_simps)
  then have "exp (- (x\<^sup>2 * c) / 2) = exp (- (x\<^sup>2) / 2) * exp (- ((a * x)\<^sup>2) / 2)"
    by (simp only: exp_add)
  ultimately show ?thesis by (simp only: c_def)
qed

lemma gauss_aux_deriv:
  assumes "0 < n"
  shows "DERIV (gauss_aux n) x :> - 2 * exp (- (x\<^sup>2) / 2) * gauss_right n x"
proof -
  let ?a = "\<lambda>k. real (Suc k) / real n"
  have "DERIV (\<lambda>x. 2 / real n * (\<Sum>k<n. exp (- (x\<^sup>2 * (1 + (?a k)\<^sup>2)) / 2) / (1 + (?a k)\<^sup>2))) x
      :> 2 / real n * (\<Sum>k<n. - (x * (exp (- (x\<^sup>2) / 2) * exp (- ((?a k * x)\<^sup>2) / 2))))"
    by (intro DERIV_cmult DERIV_sum gauss_aux_term_deriv)
  moreover have "?a k * x = real (Suc k) * (x / real n)" for k
    by simp
  then have "2 / real n * (\<Sum>k<n. - (x * (exp (- (x\<^sup>2) / 2) * exp (- ((?a k * x)\<^sup>2) / 2))))
      = 2 / real n * (\<Sum>k<n. - (x * (exp (- (x\<^sup>2) / 2)
           * exp (- ((real (Suc k) * (x / real n))\<^sup>2) / 2))))"
    by (simp only:)
  moreover have "2 / real n * (\<Sum>k<n. - (x * (exp (- (x\<^sup>2) / 2)
           * exp (- ((real (Suc k) * (x / real n))\<^sup>2) / 2))))
      = - 2 * exp (- (x\<^sup>2) / 2) * gauss_right n x"
  proof -
    have "(\<Sum>k<n. - (x * (exp (- (x\<^sup>2) / 2)
           * exp (- ((real (Suc k) * (x / real n))\<^sup>2) / 2))))
        = - (x * exp (- (x\<^sup>2) / 2))
          * (\<Sum>k<n. exp (- ((real (Suc k) * (x / real n))\<^sup>2) / 2))"
      unfolding sum_distrib_left by (intro sum.cong refl) (simp only: mult.assoc mult_minus_left)
    then show ?thesis
      unfolding gauss_right_def by (simp only:) simp
  qed
  moreover have "gauss_aux n
      = (\<lambda>x. 2 / real n * (\<Sum>k<n. exp (- (x\<^sup>2 * (1 + (?a k)\<^sup>2)) / 2) / (1 + (?a k)\<^sup>2)))"
    by (rule ext) (simp add: gauss_aux_def)
  ultimately show ?thesis by (simp only:)
qed

lemma gauss_aux_term_le:
  fixes a :: real
  shows "exp (- (x\<^sup>2 * (1 + a\<^sup>2)) / 2) / (1 + a\<^sup>2) \<le> exp (- (x\<^sup>2) / 2)"
proof -
  define c where "c = 1 + a\<^sup>2"
  have c: "1 \<le> c" by (simp add: c_def)
  have "x\<^sup>2 * 1 \<le> x\<^sup>2 * c" by (intro mult_left_mono c) simp
  then have "exp (- (x\<^sup>2 * c) / 2) \<le> exp (- (x\<^sup>2) / 2)" by simp
  moreover have "exp (- (x\<^sup>2 * c) / 2) / c \<le> exp (- (x\<^sup>2 * c) / 2) / 1"
    using c by (intro divide_left_mono) simp_all
  ultimately have "exp (- (x\<^sup>2 * c) / 2) / c \<le> exp (- (x\<^sup>2) / 2)" by linarith
  then show ?thesis by (simp only: c_def)
qed

lemma gauss_aux_nonneg: "0 \<le> gauss_aux n x"
  unfolding gauss_aux_def
  by (intro mult_nonneg_nonneg sum_nonneg divide_nonneg_nonneg add_nonneg_nonneg) simp_all

lemma gauss_aux_le:
  assumes "0 < n"
  shows "gauss_aux n x \<le> 2 * exp (- (x\<^sup>2) / 2)"
proof -
  let ?c = "\<lambda>k. 1 + (real (Suc k) / real n)\<^sup>2"
  have "(\<Sum>k<n. exp (- (x\<^sup>2 * ?c k) / 2) / ?c k) \<le> (\<Sum>k<n. exp (- (x\<^sup>2) / 2))"
    by (intro sum_mono gauss_aux_term_le)
  then have "2 / real n * (\<Sum>k<n. exp (- (x\<^sup>2 * ?c k) / 2) / ?c k)
      \<le> 2 / real n * (real n * exp (- (x\<^sup>2) / 2))"
    by (intro mult_left_mono) simp_all
  then show ?thesis using assms by (simp add: gauss_aux_def)
qed

lemma inverse_square_mono:
  fixes s t :: real
  assumes "0 \<le> s" "s \<le> t"
  shows "inverse (1 + t\<^sup>2) \<le> inverse (1 + s\<^sup>2)"
proof -
  have "s\<^sup>2 \<le> t\<^sup>2" using assms by (intro power_mono)
  moreover have "0 < 1 + s\<^sup>2" by (simp add: add_pos_nonneg)
  ultimately show ?thesis by (intro le_imp_inverse_le) simp_all
qed

lemma gauss_aux_zero:
  assumes "0 < n"
  shows "pi / 2 - 1 / real n \<le> gauss_aux n 0" "gauss_aux n 0 \<le> pi / 2"
proof -
  define R where "R = 1 / real n * (\<Sum>k<n. inverse (1 + (real (Suc k) * (1 / real n))\<^sup>2))"
  have b: "R \<le> arctan 1 - arctan 0"
    "arctan 1 - arctan 0 \<le> R + 1 / real n * (inverse (1 + 0\<^sup>2) - inverse (1 + 1\<^sup>2))"
    unfolding R_def
    by (rule riemann_right [where E = arctan and f = "\<lambda>t. inverse (1 + t\<^sup>2)" and x = 1,
          OF _ assms DERIV_arctan inverse_square_mono]; simp)+
  have "gauss_aux n 0 = 2 * R"
    by (simp add: gauss_aux_def R_def inverse_eq_divide del: of_nat_Suc)
  moreover have "arctan 1 = pi / 4" by (rule arctan_one)
  ultimately show "pi / 2 - 1 / real n \<le> gauss_aux n 0" "gauss_aux n 0 \<le> pi / 2"
    using b by (simp_all add: field_simps)
qed

lemma square_plus_aux_lower:
  assumes "0 \<le> x" "0 < n"
  shows "gauss_aux n 0 \<le> (gauss_area x)\<^sup>2 + gauss_aux n x"
proof -
  let ?P = "\<lambda>t. (gauss_area t)\<^sup>2 + gauss_aux n t"
  have "\<exists>y. DERIV ?P t :> y \<and> 0 \<le> y" if "0 \<le> t" for t
  proof (intro exI conjI)
    show "DERIV ?P t :> 2 * exp (- (t\<^sup>2) / 2) * (gauss_area t - gauss_right n t)"
      by (auto intro!: derivative_eq_intros gauss_area_deriv gauss_aux_deriv assms(2)
          simp: algebra_simps)
    show "0 \<le> 2 * exp (- (t\<^sup>2) / 2) * (gauss_area t - gauss_right n t)"
      using gauss_right_bounds(1) [OF that assms(2)] by simp
  qed
  then have "?P 0 \<le> ?P x"
    by (intro DERIV_nonneg_imp_nondecreasing [OF assms(1)]) blast
  then show ?thesis by (simp add: gauss_area_zero)
qed

lemma square_plus_aux_upper:
  assumes "0 \<le> x" "0 < n"
  shows "(gauss_area x)\<^sup>2 + gauss_aux n x \<le> gauss_aux n 0 + 2 / real n"
proof -
  let ?Q = "\<lambda>t. (gauss_area t)\<^sup>2 + gauss_aux n t + 2 / real n * exp (- (t\<^sup>2) / 2)"
  have "\<exists>y. DERIV ?Q t :> y \<and> y \<le> 0" if "0 \<le> t" for t
  proof (intro exI conjI)
    show "DERIV ?Q t :> 2 * exp (- (t\<^sup>2) / 2) * (gauss_area t - gauss_right n t - t / real n)"
      using assms(2)
      by (auto intro!: derivative_eq_intros gauss_area_deriv gauss_aux_deriv
          simp: algebra_simps)
    have "gauss_area t - gauss_right n t - t / real n \<le> 0"
      using gauss_right_bounds(2) [OF that assms(2)] by simp
    then show "2 * exp (- (t\<^sup>2) / 2) * (gauss_area t - gauss_right n t - t / real n) \<le> 0"
      by (intro mult_nonneg_nonpos) simp_all
  qed
  then have "?Q x \<le> ?Q 0"
    by (intro DERIV_nonpos_imp_nonincreasing [OF assms(1)]) blast
  then have "(gauss_area x)\<^sup>2 + gauss_aux n x + 2 / real n * exp (- (x\<^sup>2) / 2)
      \<le> gauss_aux n 0 + 2 / real n"
    by (simp add: gauss_area_zero)
  moreover have "0 \<le> 2 / real n * exp (- (x\<^sup>2) / 2)" by simp
  ultimately show ?thesis by linarith
qed

lemma le_by_inverse_nat:
  fixes a b c :: real
  assumes "\<And>n. 0 < n \<Longrightarrow> a \<le> b + c / real n"
  shows "a \<le> b"
proof (rule ccontr)
  assume "\<not> a \<le> b"
  then have pos: "0 < a - b" by simp
  obtain n where n: "c / (a - b) < real n" using reals_Archimedean2 by blast
  show False
  proof (cases "0 < n")
    case True
    then have "c < real n * (a - b)" using n pos by (simp add: field_simps)
    moreover have "real n * (a - b) \<le> c"
      using assms [OF True] True by (simp add: field_simps)
    ultimately show False by simp
  next
    case False
    then have "c < 0" using n pos by (simp add: field_simps)
    moreover have "a \<le> b + c / real 1" by (rule assms) simp
    ultimately show False using pos by simp
  qed
qed

lemma gauss_area_square_le:
  assumes "0 \<le> x"
  shows "(gauss_area x)\<^sup>2 \<le> pi / 2"
proof (rule le_by_inverse_nat)
  fix n :: nat assume n: "0 < n"
  have "(gauss_area x)\<^sup>2 \<le> (gauss_area x)\<^sup>2 + gauss_aux n x"
    using gauss_aux_nonneg [of n x] by simp
  also have "\<dots> \<le> gauss_aux n 0 + 2 / real n"
    by (rule square_plus_aux_upper [OF assms n])
  also have "\<dots> \<le> pi / 2 + 2 / real n"
    using gauss_aux_zero(2) [OF n] by simp
  finally show "(gauss_area x)\<^sup>2 \<le> pi / 2 + 2 / real n" .
qed

lemma gauss_area_square_ge:
  assumes "0 \<le> x"
  shows "pi / 2 - 2 * exp (- (x\<^sup>2) / 2) \<le> (gauss_area x)\<^sup>2"
proof -
  have "pi / 2 - 2 * exp (- (x\<^sup>2) / 2) - (gauss_area x)\<^sup>2 \<le> 0 + 1 / real n" if n: "0 < n" for n
  proof -
    have "pi / 2 - 1 / real n \<le> gauss_aux n 0"
      by (rule gauss_aux_zero(1) [OF n])
    also have "\<dots> \<le> (gauss_area x)\<^sup>2 + gauss_aux n x"
      by (rule square_plus_aux_lower [OF assms n])
    also have "\<dots> \<le> (gauss_area x)\<^sup>2 + 2 * exp (- (x\<^sup>2) / 2)"
      using gauss_aux_le [OF n, of x] by simp
    finally show ?thesis by simp
  qed
  then have "pi / 2 - 2 * exp (- (x\<^sup>2) / 2) - (gauss_area x)\<^sup>2 \<le> 0"
    by (rule le_by_inverse_nat)
  then show ?thesis by simp
qed

lemma half_mass_le: "half_mass \<le> sqrt (pi / 2)"
proof (rule half_mass_least)
  fix x
  show "gauss_area x \<le> sqrt (pi / 2)"
  proof (cases "0 \<le> x")
    case True
    then show ?thesis by (intro real_le_rsqrt gauss_area_square_le)
  next
    case False
    then have "gauss_area x < gauss_area 0" by (intro gauss_area_strict_mono) simp
    then have "gauss_area x \<le> 0" by (simp add: gauss_area_zero)
    also have "0 \<le> sqrt (pi / 2)" by simp
    finally show ?thesis .
  qed
qed

lemma half_mass_square_ge: "pi / 2 \<le> half_mass\<^sup>2"
proof -
  have "pi / 2 - half_mass\<^sup>2 \<le> 0 + 4 / real n" if n: "0 < n" for n
  proof -
    have x: "0 \<le> real n" by simp
    have "1 + (real n)\<^sup>2 / 2 \<le> exp ((real n)\<^sup>2 / 2)"
      by (rule exp_ge_add_one_self)
    moreover have "real n \<le> (real n)\<^sup>2"
      using n by (simp add: power2_eq_square)
    ultimately have "real n / 2 < exp ((real n)\<^sup>2 / 2)" by linarith
    then have "exp (- ((real n)\<^sup>2) / 2) * (real n / 2) < exp (- ((real n)\<^sup>2) / 2) * exp ((real n)\<^sup>2 / 2)"
      by (intro mult_strict_left_mono) simp_all
    also have "\<dots> = 1" by (simp flip: exp_add)
    finally have e: "2 * exp (- ((real n)\<^sup>2) / 2) \<le> 4 / real n"
      using n by (simp add: field_simps)
    have "0 \<le> gauss_area (real n)"
      using gauss_area_strict_mono [of 0 "real n"] n by (simp add: gauss_area_zero)
    then have "(gauss_area (real n))\<^sup>2 \<le> half_mass\<^sup>2"
      by (intro power_mono gauss_area_le_half_mass)
    moreover have "pi / 2 - 2 * exp (- ((real n)\<^sup>2) / 2) \<le> (gauss_area (real n))\<^sup>2"
      by (rule gauss_area_square_ge [OF x])
    ultimately show ?thesis using e by linarith
  qed
  then have "pi / 2 - half_mass\<^sup>2 \<le> 0" by (rule le_by_inverse_nat)
  then show ?thesis by simp
qed

lemma half_mass_eq: "half_mass = sqrt (pi / 2)"
proof (rule antisym [OF half_mass_le])
  have "sqrt (pi / 2) \<le> sqrt (half_mass\<^sup>2)"
    using half_mass_square_ge by (simp only: real_sqrt_le_iff)
  then show "sqrt (pi / 2) \<le> half_mass"
    using half_mass_pos by simp
qed

subsection \<open>Properties of the distribution function\<close>

lemma cdf_area: "cdf x = (half_mass + gauss_area x) / (2 * half_mass)"
proof -
  define h where "h = sqrt (pi / 2)"
  have h: "0 < h" by (simp add: h_def)
  have "cdf x = 1 / 2 * (1 + erf (x / sqrt 2))" by (simp add: cdf_def)
  also have "\<dots> = (h + h * erf (x / sqrt 2)) / (2 * h)"
    using h by (simp add: field_simps)
  finally show ?thesis
    by (simp only: gauss_area_def half_mass_eq h_def)
qed

lemma cdf_pos: "0 < cdf x"
  using neg_half_mass_less [of x] half_mass_pos by (simp add: cdf_area)

lemma cdf_less_one: "cdf x < 1"
  using gauss_area_less_half_mass [of x] half_mass_pos by (simp add: cdf_area)

lemma cdf_symmetric: "cdf x + cdf (- x) = 1"
  using half_mass_pos by (simp add: cdf_area gauss_area_odd flip: add_divide_distrib)

lemma cdf_deriv: "DERIV cdf x :> exp (- (x\<^sup>2) / 2) / (2 * half_mass)"
proof -
  have "DERIV (\<lambda>x. (half_mass + gauss_area x) / (2 * half_mass)) x
      :> (0 + exp (- (x\<^sup>2) / 2)) / (2 * half_mass)"
    by (intro DERIV_cdivide DERIV_add DERIV_const gauss_area_deriv)
  moreover have "cdf = (\<lambda>x. (half_mass + gauss_area x) / (2 * half_mass))"
    by (rule ext) (simp add: cdf_area)
  ultimately show ?thesis by simp
qed

lemma cdf_strict_mono: "a < b \<Longrightarrow> cdf a < cdf b"
  using gauss_area_strict_mono [of a b] half_mass_pos by (simp add: cdf_area divide_strict_right_mono)

lemma mills_pos: "0 < exp (- (x\<^sup>2) / 2) + x * (half_mass + gauss_area x)"
proof (cases "0 \<le> x")
  case True
  have "0 < half_mass + gauss_area x" using neg_half_mass_less [of x] by simp
  then have "0 \<le> x * (half_mass + gauss_area x)" using True by simp
  moreover have "0 < exp (- (x\<^sup>2) / 2)" by simp
  ultimately show ?thesis by linarith
next
  case False
  define y where "y = - x"
  have y: "0 < y" using False by (simp add: y_def)
  have "half_mass - gauss_area y < exp (- (y\<^sup>2) / 2) / y"
    using tail_bound [OF y] by simp
  then have "y * (half_mass - gauss_area y) < exp (- (y\<^sup>2) / 2)"
    using y by (simp add: field_simps)
  moreover have "x * (half_mass + gauss_area x) = - (y * (half_mass - gauss_area y))"
    using gauss_area_odd [of x] by (simp add: y_def)
  moreover have "x\<^sup>2 = y\<^sup>2" by (simp add: y_def)
  ultimately show ?thesis by simp
qed

lemma ratio_strict_mono:
  assumes "a < b"
  shows "(half_mass + gauss_area a) * exp (a\<^sup>2 / 2) < (half_mass + gauss_area b) * exp (b\<^sup>2 / 2)"
proof -
  let ?Q = "\<lambda>t. (half_mass + gauss_area t) * exp (t\<^sup>2 / 2)"
  have Q: "\<exists>d. DERIV ?Q t :> d \<and> 0 < d" for t
  proof -
    have "DERIV ?Q t :> (0 + exp (- (t\<^sup>2) / 2)) * exp (t\<^sup>2 / 2)
        + (half_mass + gauss_area t) * (exp (t\<^sup>2 / 2) * t)"
      by (auto intro!: derivative_eq_intros gauss_area_deriv)
    moreover have "(0 + exp (- (t\<^sup>2) / 2)) * exp (t\<^sup>2 / 2) + (half_mass + gauss_area t) * (exp (t\<^sup>2 / 2) * t)
        = exp (t\<^sup>2 / 2) * (exp (- (t\<^sup>2) / 2) + t * (half_mass + gauss_area t))"
      by (simp add: algebra_simps)
    moreover have "0 < exp (t\<^sup>2 / 2) * (exp (- (t\<^sup>2) / 2) + t * (half_mass + gauss_area t))"
      by (intro mult_pos_pos mills_pos) simp
    ultimately show ?thesis by (intro exI conjI) (simp, simp)
  qed
  show ?thesis
    by (rule DERIV_pos_imp_increasing [OF assms]) (use Q in blast)
qed

lemma cdf_shift:
  assumes "0 < s"
  shows "cdf (a - s) < exp (s * a - s\<^sup>2 / 2) * cdf a"
proof -
  have "(half_mass + gauss_area (a - s)) * exp ((a - s)\<^sup>2 / 2) < (half_mass + gauss_area a) * exp (a\<^sup>2 / 2)"
    by (rule ratio_strict_mono) (use assms in simp)
  then have "(half_mass + gauss_area (a - s)) * exp ((a - s)\<^sup>2 / 2) * exp (- ((a - s)\<^sup>2 / 2))
      < (half_mass + gauss_area a) * exp (a\<^sup>2 / 2) * exp (- ((a - s)\<^sup>2 / 2))"
    by (rule mult_strict_right_mono) simp
  moreover have "exp ((a - s)\<^sup>2 / 2) * exp (- ((a - s)\<^sup>2 / 2)) = 1"
    by (simp flip: exp_add)
  moreover have "exp (a\<^sup>2 / 2) * exp (- ((a - s)\<^sup>2 / 2)) = exp (s * a - s\<^sup>2 / 2)"
  proof -
    have "a\<^sup>2 / 2 + - ((a - s)\<^sup>2 / 2) = s * a - s\<^sup>2 / 2"
      by (simp add: power2_eq_square field_simps)
    then show ?thesis by (simp only: flip: exp_add)
  qed
  ultimately have "half_mass + gauss_area (a - s) < (half_mass + gauss_area a) * exp (s * a - s\<^sup>2 / 2)"
    by (simp add: mult.assoc)
  then have "(half_mass + gauss_area (a - s)) / (2 * half_mass)
      < (half_mass + gauss_area a) * exp (s * a - s\<^sup>2 / 2) / (2 * half_mass)"
    using half_mass_pos by (simp add: divide_strict_right_mono)
  then show ?thesis by (simp add: cdf_area mult.commute)
qed

lemma call_core_pos:
  assumes "0 < F" "0 < K" "0 < s"
  shows "cdf ((ln (F / K) + s\<^sup>2 / 2) / s - s) * K < cdf ((ln (F / K) + s\<^sup>2 / 2) / s) * F"
proof -
  define a where "a = (ln (F / K) + s\<^sup>2 / 2) / s"
  have "s * a - s\<^sup>2 / 2 = ln (F / K)"
    using assms by (simp add: a_def)
  then have "exp (s * a - s\<^sup>2 / 2) = F / K"
    using assms by simp
  with cdf_shift [OF assms(3), of a] have "cdf (a - s) < F / K * cdf a" by simp
  then have "cdf (a - s) * K < cdf a * F"
    using assms by (simp add: field_simps)
  then show ?thesis by (simp add: a_def)
qed

lemma put_core_pos:
  assumes "0 < F" "0 < K" "0 < s"
  shows "cdf (- ((ln (F / K) + s\<^sup>2 / 2) / s)) * F < cdf (- ((ln (F / K) + s\<^sup>2 / 2) / s - s)) * K"
proof -
  define a where "a = - ((ln (F / K) + s\<^sup>2 / 2) / s - s)"
  have a: "a - s = - ((ln (F / K) + s\<^sup>2 / 2) / s)" by (simp add: a_def)
  have "s * a - s\<^sup>2 / 2 = - ln (F / K)"
    using assms by (simp add: a_def power2_eq_square field_simps)
  then have "exp (s * a - s\<^sup>2 / 2) = exp (- ln (F / K))"
    by (simp only:)
  also have "\<dots> = K / F"
    using assms by (simp add: exp_minus)
  finally have "cdf (a - s) < K / F * cdf a"
    using cdf_shift [OF assms(3), of a] by simp
  then have "cdf (a - s) * F < cdf a * K"
    using assms by (simp add: field_simps)
  then show ?thesis unfolding a by (simp add: a_def)
qed

lemma cdf_tendsto_one: "(cdf \<longlongrightarrow> 1) at_top"
proof (rule order_tendstoI)
  fix l :: real assume "l < 1"
  define B where "B = (2 * l - 1) * half_mass"
  have "B < half_mass" using \<open>l < 1\<close> half_mass_pos by (simp add: B_def)
  then have "\<not> (\<forall>x. gauss_area x \<le> B)" using half_mass_least [of B] by auto
  then obtain x0 where x0: "B < gauss_area x0" by (auto simp: not_le)
  have "l < cdf x" if "x0 \<le> x" for x
  proof -
    have "gauss_area x0 \<le> gauss_area x"
      using gauss_area_strict_mono [of x0 x] that by (cases "x0 = x") auto
    with x0 have "B < gauss_area x" by simp
    then show ?thesis using half_mass_pos by (simp add: cdf_area B_def field_simps)
  qed
  then show "eventually (\<lambda>x. l < cdf x) at_top"
    unfolding eventually_at_top_linorder by blast
next
  fix u :: real assume "1 < u"
  then show "eventually (\<lambda>x. cdf x < u) at_top"
    using cdf_less_one by (intro always_eventually allI) (smt (verit))
qed

lemma cdf_tendsto_zero: "(cdf \<longlongrightarrow> 0) at_bot"
proof -
  have "((\<lambda>x. cdf (- x)) \<longlongrightarrow> 1) at_bot"
    by (rule filterlim_compose [OF cdf_tendsto_one filterlim_uminus_at_top_at_bot])
  then have "((\<lambda>x. 1 - cdf (- x)) \<longlongrightarrow> 1 - 1) at_bot"
    by (intro tendsto_diff tendsto_const)
  moreover have "(\<lambda>x. 1 - cdf (- x)) = cdf"
    using cdf_symmetric by (intro ext) (simp add: algebra_simps)
  ultimately show ?thesis by simp
qed

lemma cdf_zero: "cdf 0 = 1 / 2"
  using half_mass_pos by (simp add: cdf_area gauss_area_zero)

lemma cdf_density: "DERIV cdf x :> exp (- (x\<^sup>2) / 2) / sqrt (2 * pi)"
proof -
  have "(2 * sqrt (pi / 2))\<^sup>2 = 2 * pi"
    by (simp add: power_mult_distrib)
  then have "sqrt (2 * pi) = 2 * sqrt (pi / 2)"
    by (intro real_sqrt_unique) simp_all
  then show ?thesis
    using cdf_deriv [of x] by (simp only: half_mass_eq)
qed

section \<open>Evaluation rules of the model\<close>

lemma Num_plus [simp]: "Num a + Num b = Num (a + b)"
  by (simp add: plus_npfloat_def)

lemma Num_minus [simp]: "Num a - Num b = Num (a - b)"
  by (simp add: minus_npfloat_def)

lemma Num_times [simp]: "Num a * Num b = Num (a * b)"
  by (simp add: times_npfloat_def)

lemma Num_uminus [simp]: "- Num a = Num (- a)"
  by (simp add: uminus_npfloat_def)

lemma Num_divide [simp]: "b \<noteq> 0 \<Longrightarrow> Num a / Num b = Num (a / b)"
  by (simp add: divide_npfloat_def)

lemma np_exp_Num [simp]: "np_exp (Num a) = Num (exp a)"
  by (simp add: np_exp_def)

lemma NormalDist_cdf_Num [simp]: "NormalDist_cdf (Num a) = Num (cdf a)"
  by (simp add: NormalDist_cdf_def)

lemma NaN_absorbs [simp]:
  "NaN + a = NaN" "a + NaN = NaN" "NaN - a = NaN" "a - NaN = NaN"
  "NaN * a = NaN" "a * NaN = NaN" "NaN / a = NaN" "a / NaN = NaN"
  "- NaN = NaN" "np_exp NaN = NaN" "NormalDist_cdf NaN = NaN"
  by (cases a; simp add: plus_npfloat_def minus_npfloat_def times_npfloat_def divide_npfloat_def
        uminus_npfloat_def np_exp_def NormalDist_cdf_def)+

lemma bind_exn_Inr [simp]: "bind_exn (Inr v) f = f v"
  by (simp add: bind_exn_def)

lemma bind_exn_Inl [simp]: "bind_exn (Inl e) f = Inl e"
  by (simp add: bind_exn_def)

lemma bind_exn_eq_Inr: "bind_exn m f = Inr v \<longleftrightarrow> (\<exists>x. m = Inr x \<and> f x = Inr v)"
  by (cases m) simp_all

lemma plus_eq_Num: "a + b = Num v \<longleftrightarrow> (\<exists>x y. a = Num x \<and> b = Num y \<and> v = x + y)"
  by (cases a; cases b) (auto simp: plus_npfloat_def)

lemma minus_eq_Num: "a - b = Num v \<longleftrightarrow> (\<exists>x y. a = Num x \<and> b = Num y \<and> v = x - y)"
  by (cases a; cases b) (auto simp: minus_npfloat_def)

lemma times_eq_Num: "a * b = Num v \<longleftrightarrow> (\<exists>x y. a = Num x \<and> b = Num y \<and> v = x * y)"
  by (cases a; cases b) (auto simp: times_npfloat_def)

lemma divide_eq_Num:
  "a / b = Num v \<longleftrightarrow> (\<exists>x y. a = Num x \<and> b = Num y \<and> y \<noteq> 0 \<and> v = x / y)"
  by (cases a; cases b) (auto simp: divide_npfloat_def)

lemma uminus_eq_Num: "- a = Num v \<longleftrightarrow> (\<exists>x. a = Num x \<and> v = - x)"
  by (cases a) (auto simp: uminus_npfloat_def)

lemma np_exp_eq_Num: "np_exp a = Num v \<longleftrightarrow> (\<exists>x. a = Num x \<and> v = exp x)"
  by (cases a) (auto simp: np_exp_def)

lemma cdf_eq_Num: "NormalDist_cdf a = Num v \<longleftrightarrow> (\<exists>x. a = Num x \<and> v = cdf x)"
  by (cases a) (auto simp: NormalDist_cdf_def)

lemma np_log_eq_Num: "np_log a = Num v \<longleftrightarrow> (\<exists>x. a = Num x \<and> 0 < x \<and> v = ln x)"
  by (cases a) auto

lemma np_sqrt_eq_Num: "np_sqrt a = Num v \<longleftrightarrow> (\<exists>x. a = Num x \<and> 0 \<le> x \<and> v = sqrt x)"
  by (cases a) auto

lemmas eq_Num_iffs = plus_eq_Num minus_eq_Num times_eq_Num divide_eq_Num uminus_eq_Num
  np_exp_eq_Num cdf_eq_Num np_log_eq_Num np_sqrt_eq_Num

lemma risk_free_cont_eq_Num:
  "risk_free_cont opt = Num r \<longleftrightarrow> - 1 < risk_free_int opt \<and> r = ln (1 + risk_free_int opt)"
  by (auto simp: risk_free_cont_def)

lemma risk_free_cont_eq_NaN: "risk_free_cont opt = NaN \<longleftrightarrow> risk_free_int opt < - 1"
  by (auto simp: risk_free_cont_def)

subsection \<open>When the forward model returns a number\<close>

lemma real_domain_unique:
  "real_domain opt T r \<Longrightarrow> real_domain opt T' r' \<Longrightarrow> T' = T \<and> r' = r"
  by (simp add: real_domain_def)

lemma scaled_ratio_pos: "0 < S * exp x / K \<longleftrightarrow> 0 < S / (K::real)"
  by (simp add: zero_less_divide_iff zero_less_mult_iff mult_less_0_iff)

lemma ForwardPrice_price_value:
  assumes "time_to_expiry opt = Inr T" "risk_free_cont opt = Num r"
  shows "ForwardPrice_price opt = Inr (Num (spec_forward_price (spot_price opt) r T))"
  using assms by (simp add: ForwardPrice_price_def spec_forward_price_def)

lemma ForwardPrice_price_dest:
  assumes "ForwardPrice_price opt = Inr (Num x)"
  shows "\<exists>T r. time_to_expiry opt = Inr T \<and> risk_free_cont opt = Num r"
  using assms by (auto simp: ForwardPrice_price_def bind_exn_eq_Inr eq_Num_iffs)

lemma ForwardPrice_d1_value:
  assumes "real_domain opt T r"
  shows "ForwardPrice_d1 opt = Inr (Num (spec_forward_d1
           (spec_forward_price (spot_price opt) r T) (strike_price opt) T (volatility opt)))"
proof -
  have "0 < spot_price opt * exp (r * T) / strike_price opt"
    using assms by (simp only: scaled_ratio_pos real_domain_def)
  then show ?thesis
    using assms
    by (simp add: ForwardPrice_d1_def ForwardPrice_price_value real_domain_def
        spec_forward_d1_def spec_forward_price_def)
qed

lemma ForwardPrice_d1_dest:
  assumes "ForwardPrice_d1 opt = Inr (Num x)"
  shows "\<exists>T r. real_domain opt T r"
proof -
  from assms obtain p t1 t2 where p: "ForwardPrice_price opt = Inr p"
    and t1: "time_to_expiry opt = Inr t1" and t2: "time_to_expiry opt = Inr t2"
    and x: "(np_log (p / Num (strike_price opt)) + Num (t1 * (volatility opt)\<^sup>2 / 2))
            / (Num (volatility opt) * np_sqrt (Num t2)) = Num x"
    by (auto simp: ForwardPrice_d1_def bind_exn_eq_Inr)
  from x obtain pv where pv: "p = Num pv" and K: "strike_price opt \<noteq> 0"
    and q: "0 < pv / strike_price opt" and t: "0 \<le> t2" "volatility opt * sqrt t2 \<noteq> 0"
    by (auto simp: eq_Num_iffs split: if_splits)
  from p pv obtain T r where T: "time_to_expiry opt = Inr T" and r: "risk_free_cont opt = Num r"
    using ForwardPrice_price_dest by blast
  have "pv = spot_price opt * exp (r * T)"
    using ForwardPrice_price_value [OF T r] p pv by (simp add: spec_forward_price_def)
  with q have "0 < spot_price opt / strike_price opt"
    by (simp only: scaled_ratio_pos)
  moreover have "0 < T" "volatility opt \<noteq> 0"
    using t t2 T by auto
  ultimately show ?thesis
    using T r K by (auto simp: real_domain_def)
qed

lemma ForwardPrice_d2_value:
  assumes "real_domain opt T r"
  shows "ForwardPrice_d2 opt = Inr (Num (spec_d2 (spec_forward_d1
           (spec_forward_price (spot_price opt) r T) (strike_price opt) T (volatility opt))
           T (volatility opt)))"
  using assms
  by (simp add: ForwardPrice_d2_def ForwardPrice_d1_value [OF assms] real_domain_def spec_d2_def)

lemma ForwardPrice_d2_dest:
  assumes "ForwardPrice_d2 opt = Inr (Num x)"
  shows "\<exists>T r. real_domain opt T r"
proof -
  from assms obtain d where "ForwardPrice_d1 opt = Inr (Num d)"
    by (auto simp: ForwardPrice_d2_def bind_exn_eq_Inr eq_Num_iffs)
  then show ?thesis by (rule ForwardPrice_d1_dest)
qed

lemma ForwardPrice_call_value:
  assumes "real_domain opt T r"
  shows "ForwardPrice_call opt = Inr (Num (
    let price = spec_forward_price (spot_price opt) r T;
        d1 = spec_forward_d1 price (strike_price opt) T (volatility opt);
        d2 = spec_d2 d1 T (volatility opt)
    in spec_forward_call d1 d2 price (strike_price opt) r T))"
  using assms
  by (simp add: ForwardPrice_call_def ForwardPrice_d1_value [OF assms]
      ForwardPrice_d2_value [OF assms] ForwardPrice_price_value real_domain_def
      spec_forward_call_def Let_def)

lemma ForwardPrice_call_dest:
  assumes "ForwardPrice_call opt = Inr (Num x)"
  shows "\<exists>T r. real_domain opt T r"
proof -
  from assms obtain d where "ForwardPrice_d1 opt = Inr (Num d)"
    by (auto simp: ForwardPrice_call_def bind_exn_eq_Inr eq_Num_iffs)
  then show ?thesis by (rule ForwardPrice_d1_dest)
qed

lemma ForwardPrice_put_value:
  assumes "real_domain opt T r"
  shows "ForwardPrice_put opt = Inr (Num (
    let price = spec_forward_price (spot_price opt) r T;
        d1 = spec_forward_d1 price (strike_price opt) T (volatility opt);
        d2 = spec_d2 d1 T (volatility opt)
    in spec_forward_put d1 d2 price (strike_price opt) r T))"
  using assms
  by (simp add: ForwardPrice_put_def ForwardPrice_d1_value [OF assms]
      ForwardPrice_d2_value [OF assms] ForwardPrice_price_value real_domain_def
      spec_forward_put_def Let_def)

lemma ForwardPrice_put_dest:
  assumes "ForwardPrice_put opt = Inr (Num x)"
  shows "\<exists>T r. real_domain opt T r"
proof -
  from assms obtain d where "ForwardPrice_d1 opt = Inr (Num d)"
    by (auto simp: ForwardPrice_put_def bind_exn_eq_Inr eq_Num_iffs)
  then show ?thesis by (rule ForwardPrice_d1_dest)
qed

lemma ForwardPrice_put_from_parity_value:
  assumes "real_domain opt T r"
  shows "ForwardPrice_put_from_parity opt = Inr (Num (
    let price = spec_forward_price (spot_price opt) r T;
        d1 = spec_forward_d1 price (strike_price opt) T (volatility opt);
        d2 = spec_d2 d1 T (volatility opt)
    in spec_forward_call d1 d2 price (strike_price opt) r T
       - spot_price opt + strike_price opt * exp (- r * T)))"
  using assms
  by (simp add: ForwardPrice_put_from_parity_def ForwardPrice_call_value [OF assms]
      real_domain_def Let_def)

subsection \<open>When the spot model returns a number\<close>

lemma SpotPrice_d1_value:
  assumes "real_domain opt T r"
  shows "SpotPrice_d1 opt = Inr (Num (spec_spot_d1
           (spot_price opt) (strike_price opt) r T (volatility opt)))"
  using assms
  by (simp add: SpotPrice_d1_def SpotPrice_price_def py_truediv_def real_domain_def spec_spot_d1_def)

lemma SpotPrice_d1_dest:
  assumes "SpotPrice_d1 opt = Inr (Num x)"
  shows "\<exists>T r. real_domain opt T r"
proof -
  from assms obtain q t1 t2 where q: "py_truediv (SpotPrice_price opt) (strike_price opt) = Inr q"
    and t1: "time_to_expiry opt = Inr t1" and t2: "time_to_expiry opt = Inr t2"
    and x: "(np_log (Num q) + Num t1 * (risk_free_cont opt + Num ((volatility opt)\<^sup>2 / 2)))
            / (Num (volatility opt) * np_sqrt (Num t2)) = Num x"
    by (auto simp: SpotPrice_d1_def bind_exn_eq_Inr)
  from q have K: "strike_price opt \<noteq> 0" and qv: "q = spot_price opt / strike_price opt"
    by (auto simp: py_truediv_def SpotPrice_price_def split: if_splits)
  from x obtain r where "0 < q" and r: "risk_free_cont opt = Num r"
    and t: "0 \<le> t2" "volatility opt * sqrt t2 \<noteq> 0"
    by (auto simp: eq_Num_iffs split: if_splits)
  then show ?thesis
    using K qv t1 t2 by (auto simp: real_domain_def)
qed

lemma SpotPrice_d2_value:
  assumes "real_domain opt T r"
  shows "SpotPrice_d2 opt = Inr (Num (spec_d2 (spec_spot_d1
           (spot_price opt) (strike_price opt) r T (volatility opt)) T (volatility opt)))"
  using assms
  by (simp add: SpotPrice_d2_def SpotPrice_d1_value [OF assms] real_domain_def spec_d2_def)

lemma SpotPrice_d2_dest:
  assumes "SpotPrice_d2 opt = Inr (Num x)"
  shows "\<exists>T r. real_domain opt T r"
proof -
  from assms obtain d where "SpotPrice_d1 opt = Inr (Num d)"
    by (auto simp: SpotPrice_d2_def bind_exn_eq_Inr eq_Num_iffs)
  then show ?thesis by (rule SpotPrice_d1_dest)
qed

lemma SpotPrice_call_value:
  assumes "real_domain opt T r"
  shows "SpotPrice_call opt = Inr (Num (
    let d1 = spec_spot_d1 (spot_price opt) (strike_price opt) r T (volatility opt);
        d2 = spec_d2 d1 T (volatility opt)
    in spec_spot_call d1 d2 (spot_price opt) (strike_price opt) r T))"
  using assms
  by (simp add: SpotPrice_call_def SpotPrice_d1_value [OF assms] SpotPrice_d2_value [OF assms]
      SpotPrice_price_def real_domain_def spec_spot_call_def Let_def)

lemma SpotPrice_call_dest:
  assumes "SpotPrice_call opt = Inr (Num x)"
  shows "\<exists>T r. real_domain opt T r"
proof -
  from assms obtain d where "SpotPrice_d1 opt = Inr (Num d)"
    by (auto simp: SpotPrice_call_def bind_exn_eq_Inr eq_Num_iffs)
  then show ?thesis by (rule SpotPrice_d1_dest)
qed

section \<open>The scenarios\<close>

lemma scenario_time_to_expiry:
  assumes "trade_date opt = ''23.11.2022''" "expiry_date opt = ''10.05.2023''"
  shows "time_to_expiry opt = Inr (168 / 365)"
  using assms
  by (simp add: time_to_expiry_def to_datetime_def is_digit_def decimal_def digit_val_def
      valid_date_def days_in_month_def is_leap_def delta_days_def toordinal_def
      days_before_year_def days_before_month_def upt_rec [of _ "numeral _"] Let_def)

lemma valid_real_domain:
  assumes "0 < spot_price opt" "0 < strike_price opt" "0 < volatility opt"
    "time_to_expiry opt = Inr T" "0 < T" "- 1 < risk_free_int opt"
  shows "real_domain opt T (ln (1 + risk_free_int opt))"
  using assms by (simp add: real_domain_def risk_free_cont_eq_Num)

section \<open>The formulas over the real numbers\<close>

lemma forward_price_discounted: "spec_forward_price S r T * exp (- r * T) = S"
  by (simp add: spec_forward_price_def flip: exp_add)

lemma parity_real:
  "spec_forward_call d1 d2 (spec_forward_price S r T) K r T
     - spec_forward_put d1 d2 (spec_forward_price S r T) K r T
   = S - K * exp (- r * T)"
proof -
  let ?F = "spec_forward_price S r T"
  have "spec_forward_call d1 d2 ?F K r T - spec_forward_put d1 d2 ?F K r T
      = ((cdf d1 + cdf (- d1)) * ?F - (cdf d2 + cdf (- d2)) * K) * exp (- r * T)"
    by (simp add: spec_forward_call_def spec_forward_put_def algebra_simps)
  also have "\<dots> = ?F * exp (- r * T) - K * exp (- r * T)"
    by (simp add: cdf_symmetric algebra_simps)
  finally show ?thesis
    by (simp only: forward_price_discounted)
qed

lemma forward_d1_shape:
  assumes "0 < T" "0 < v"
  shows "spec_forward_d1 F K T v = (ln (F / K) + (v * sqrt T)\<^sup>2 / 2) / (v * sqrt T)"
  using assms by (simp add: spec_forward_d1_def power_mult_distrib mult.commute)

lemma forward_call_pos:
  assumes "0 < F" "0 < K" "0 < T" "0 < v"
  shows "0 < spec_forward_call (spec_forward_d1 F K T v) (spec_d2 (spec_forward_d1 F K T v) T v) F K r T"
proof -
  have s: "0 < v * sqrt T" using assms by simp
  have "cdf (spec_d2 (spec_forward_d1 F K T v) T v) * K < cdf (spec_forward_d1 F K T v) * F"
    using call_core_pos [OF assms(1,2) s] assms by (simp add: forward_d1_shape spec_d2_def)
  then show ?thesis
    by (simp add: spec_forward_call_def)
qed

lemma forward_put_pos:
  assumes "0 < F" "0 < K" "0 < T" "0 < v"
  shows "0 < spec_forward_put (spec_forward_d1 F K T v) (spec_d2 (spec_forward_d1 F K T v) T v) F K r T"
proof -
  have s: "0 < v * sqrt T" using assms by simp
  have "cdf (- spec_forward_d1 F K T v) * F < cdf (- spec_d2 (spec_forward_d1 F K T v) T v) * K"
    using put_core_pos [OF assms(1,2) s] assms by (simp add: forward_d1_shape spec_d2_def)
  then show ?thesis
    by (simp add: spec_forward_put_def)
qed



section \<open>Shared facts about the results\<close>





lemma forward_values:
  assumes "0 < spot_price opt" "0 < strike_price opt" "0 < volatility opt"
    "time_to_expiry opt = Inr T" "0 < T" "- 1 < risk_free_int opt"
  obtains r c p where "risk_free_cont opt = Num r"
    "ForwardPrice_call opt = Inr (Num c)" "ForwardPrice_put opt = Inr (Num p)"
    "ForwardPrice_put_from_parity opt = Inr (Num (c - spot_price opt + strike_price opt * exp (- r * T)))"
    "c - p = spot_price opt - strike_price opt * exp (- r * T)" "0 < c" "0 < p"
proof -
  define r where "r = ln (1 + risk_free_int opt)"
  define F where "F = spec_forward_price (spot_price opt) r T"
  define d1 where "d1 = spec_forward_d1 F (strike_price opt) T (volatility opt)"
  define d2 where "d2 = spec_d2 d1 T (volatility opt)"
  define c where "c = spec_forward_call d1 d2 F (strike_price opt) r T"
  define p where "p = spec_forward_put d1 d2 F (strike_price opt) r T"
  have D: "real_domain opt T r"
    unfolding r_def using assms by (rule valid_real_domain)
  have F: "0 < F" using assms(1) by (simp add: F_def spec_forward_price_def)
  show thesis
  proof
    show "risk_free_cont opt = Num r" using D by (simp add: real_domain_def)
    show "ForwardPrice_call opt = Inr (Num c)"
      using ForwardPrice_call_value [OF D] by (simp add: c_def d1_def d2_def F_def Let_def)
    show "ForwardPrice_put opt = Inr (Num p)"
      using ForwardPrice_put_value [OF D] by (simp add: p_def d1_def d2_def F_def Let_def)
    show "ForwardPrice_put_from_parity opt
        = Inr (Num (c - spot_price opt + strike_price opt * exp (- r * T)))"
      using ForwardPrice_put_from_parity_value [OF D] by (simp add: c_def d1_def d2_def F_def Let_def)
    show "c - p = spot_price opt - strike_price opt * exp (- r * T)"
      unfolding c_def p_def F_def by (rule parity_real)
    show "0 < c" unfolding c_def d2_def d1_def using F assms by (intro forward_call_pos)
    show "0 < p" unfolding p_def d2_def d1_def using F assms by (intro forward_put_pos)
  qed
qed

text \<open>
  A rate below \<open>-1\<close> makes the continuous rate \<open>np.log\<close> of a negative number, which is
  NaN, and NaN passes through every later operation.
\<close>

lemma nan_rate_forward:
  assumes "risk_free_int opt < - 1" "time_to_expiry opt = Inr T" "0 \<le> T"
  shows "ForwardPrice_price opt = Inr NaN" "ForwardPrice_d1 opt = Inr NaN"
    "ForwardPrice_d2 opt = Inr NaN" "ForwardPrice_call opt = Inr NaN"
    "ForwardPrice_put opt = Inr NaN" "ForwardPrice_put_from_parity opt = Inr NaN"
proof -
  have r: "risk_free_cont opt = NaN" using assms(1) by (simp add: risk_free_cont_eq_NaN)
  show p: "ForwardPrice_price opt = Inr NaN"
    by (simp add: ForwardPrice_price_def assms r)
  show d1: "ForwardPrice_d1 opt = Inr NaN"
    by (simp add: ForwardPrice_d1_def assms p)
  show d2: "ForwardPrice_d2 opt = Inr NaN"
    by (simp add: ForwardPrice_d2_def assms d1)
  show c: "ForwardPrice_call opt = Inr NaN"
    by (simp add: ForwardPrice_call_def assms p d1 d2)
  show "ForwardPrice_put opt = Inr NaN"
    by (simp add: ForwardPrice_put_def assms p d1 d2)
  show "ForwardPrice_put_from_parity opt = Inr NaN"
    by (simp add: ForwardPrice_put_from_parity_def assms c)
qed



text \<open>A property returns a number exactly when the formula is defined and gives it.\<close>

lemma eq_Num_iff_domain:
  assumes "\<And>y. f = Inr (Num y) \<Longrightarrow> \<exists>T r. real_domain opt T r"
    and "\<And>T r. real_domain opt T r \<Longrightarrow> f = Inr (Num (g T r))"
  shows "f = Inr (Num x) \<longleftrightarrow> (\<exists>T r. real_domain opt T r \<and> x = g T r)"
proof
  assume f: "f = Inr (Num x)"
  then obtain T r where D: "real_domain opt T r" using assms(1) by blast
  with assms(2) f have "x = g T r" by fastforce
  with D show "\<exists>T r. real_domain opt T r \<and> x = g T r" by blast
next
  assume "\<exists>T r. real_domain opt T r \<and> x = g T r"
  with assms(2) show "f = Inr (Num x)" by blast
qed

lemma itm_real_domain: "real_domain itm (168 / 365) (ln (1 + 5 / 1000))"
proof -
  have "time_to_expiry itm = Inr (168 / 365)"
    by (rule scenario_time_to_expiry) (simp_all add: itm_def)
  then show ?thesis
    by (simp add: real_domain_def risk_free_cont_eq_Num) (simp add: itm_def)
qed

section \<open>The claims\<close>

text \<open>
  Claim C1 (put-call parity of the forward model), as amended. For every contract with
  positive spot price, strike price and volatility, whose dates parse to a positive time
  to expiry \<open>T\<close>, and whose risk-free rate is above \<open>-1\<close>, the call and the put of
  \<open>ForwardPrice\<close> are real numbers, the continuous rate is a real number \<open>r\<close>, and call
  minus put equals spot minus strike times \<open>exp (- r * T)\<close>, exactly and so within
  \<open>1e-4\<close>.
\<close>

theorem put_call_parity:
  assumes "0 < spot_price opt" "0 < strike_price opt" "0 < volatility opt"
    "time_to_expiry opt = Inr T" "0 < T" "- 1 < risk_free_int opt"
  shows "\<exists>c p r. ForwardPrice_call opt = Inr (Num c) \<and> ForwardPrice_put opt = Inr (Num p)
    \<and> risk_free_cont opt = Num r
    \<and> c - p = spot_price opt - strike_price opt * exp (- r * T)
    \<and> \<bar>(c - p) - (spot_price opt - strike_price opt * exp (- r * T))\<bar> \<le> 1 / 10 ^ 4"
proof -
  from assms obtain r c p where "risk_free_cont opt = Num r"
    "ForwardPrice_call opt = Inr (Num c)" "ForwardPrice_put opt = Inr (Num p)"
    "c - p = spot_price opt - strike_price opt * exp (- r * T)"
    by (rule forward_values)
  then show ?thesis by (intro exI [of _ c] exI [of _ p] exI [of _ r]) simp
qed

theorem put_call_parity_witness:
  "0 < spot_price itm \<and> 0 < strike_price itm \<and> 0 < volatility itm
   \<and> time_to_expiry itm = Inr (168 / 365) \<and> - 1 < risk_free_int itm
   \<and> (\<exists>c p r. ForwardPrice_call itm = Inr (Num c) \<and> ForwardPrice_put itm = Inr (Num p)
        \<and> risk_free_cont itm = Num r
        \<and> c - p = 110 - 100 * exp (- r * (168 / 365)))"
proof -
  have t: "time_to_expiry itm = Inr (168 / 365)"
    by (rule scenario_time_to_expiry) (simp_all add: itm_def)
  have "\<exists>c p r. ForwardPrice_call itm = Inr (Num c) \<and> ForwardPrice_put itm = Inr (Num p)
        \<and> risk_free_cont itm = Num r
        \<and> c - p = spot_price itm - strike_price itm * exp (- r * (168 / 365))
        \<and> \<bar>(c - p) - (spot_price itm - strike_price itm * exp (- r * (168 / 365)))\<bar> \<le> 1 / 10 ^ 4"
    by (rule put_call_parity [OF _ _ _ t]) (simp_all add: itm_def)
  then show ?thesis
    using t by (auto simp: itm_def)
qed

text \<open>
  The claim as stated puts no bound on the rate. At a rate of \<open>-2\<close> the continuous rate
  is \<open>np.log\<close> of a negative number, which is NaN, and the call and the put are NaN.
\<close>

theorem put_call_parity_counterexample:
  "0 < spot_price itm_rate_minus_2 \<and> 0 < strike_price itm_rate_minus_2
   \<and> 0 < volatility itm_rate_minus_2 \<and> time_to_expiry itm_rate_minus_2 = Inr (168 / 365)
   \<and> risk_free_cont itm_rate_minus_2 = NaN
   \<and> ForwardPrice_call itm_rate_minus_2 = Inr NaN \<and> ForwardPrice_put itm_rate_minus_2 = Inr NaN"
proof -
  have t: "time_to_expiry itm_rate_minus_2 = Inr (168 / 365)"
    by (rule scenario_time_to_expiry) (simp_all add: itm_rate_minus_2_def itm_def)
  have r: "risk_free_int itm_rate_minus_2 < - 1"
    by (simp add: itm_rate_minus_2_def)
  show ?thesis
    using nan_rate_forward(4,5) [OF r t] t r
    by (simp add: risk_free_cont_eq_NaN) (simp add: itm_rate_minus_2_def itm_def)
qed

text \<open>
  Claim C2 (parity self-consistency), as amended. For every contract with positive spot
  price, strike price and volatility, whose dates parse to a positive time to expiry, and
  whose risk-free rate is above \<open>-1\<close>, \<open>ForwardPrice.put_from_parity\<close> and
  \<open>ForwardPrice.put\<close> are the same real number, and so agree within \<open>1e-4\<close>.
\<close>

theorem put_from_parity_is_put:
  assumes "0 < spot_price opt" "0 < strike_price opt" "0 < volatility opt"
    "time_to_expiry opt = Inr T" "0 < T" "- 1 < risk_free_int opt"
  shows "(\<exists>p. ForwardPrice_put_from_parity opt = Inr (Num p) \<and> ForwardPrice_put opt = Inr (Num p))
    \<and> within_tolerance (ForwardPrice_put_from_parity opt) (ForwardPrice_put opt)"
proof -
  from assms obtain r c p where
    "ForwardPrice_put opt = Inr (Num p)"
    "ForwardPrice_put_from_parity opt = Inr (Num (c - spot_price opt + strike_price opt * exp (- r * T)))"
    "c - p = spot_price opt - strike_price opt * exp (- r * T)"
    by (rule forward_values)
  moreover from this have "c - spot_price opt + strike_price opt * exp (- r * T) = p"
    by simp
  ultimately show ?thesis by (simp add: within_tolerance_def)
qed

theorem put_from_parity_is_put_witness:
  "0 < spot_price otm \<and> 0 < strike_price otm \<and> 0 < volatility otm
   \<and> time_to_expiry otm = Inr (168 / 365) \<and> - 1 < risk_free_int otm
   \<and> (\<exists>p. ForwardPrice_put_from_parity otm = Inr (Num p) \<and> ForwardPrice_put otm = Inr (Num p))
   \<and> within_tolerance (ForwardPrice_put_from_parity otm) (ForwardPrice_put otm)"
proof -
  have t: "time_to_expiry otm = Inr (168 / 365)"
    by (rule scenario_time_to_expiry) (simp_all add: otm_def)
  have "(\<exists>p. ForwardPrice_put_from_parity otm = Inr (Num p) \<and> ForwardPrice_put otm = Inr (Num p))
    \<and> within_tolerance (ForwardPrice_put_from_parity otm) (ForwardPrice_put otm)"
    by (rule put_from_parity_is_put [OF _ _ _ t]) (simp_all add: otm_def)
  then show ?thesis
    using t by (simp add: otm_def)
qed

text \<open>
  The claim as stated puts no bound on the rate. At a rate of \<open>-5\<close> the continuous rate
  is \<open>np.log\<close> of a negative number, which is NaN, and \<open>put_from_parity\<close> and \<open>put\<close> are NaN, which is within
  tolerance of nothing.
\<close>

theorem put_from_parity_is_put_counterexample:
  "0 < spot_price otm_rate_minus_5 \<and> 0 < strike_price otm_rate_minus_5
   \<and> 0 < volatility otm_rate_minus_5 \<and> time_to_expiry otm_rate_minus_5 = Inr (168 / 365)
   \<and> ForwardPrice_put_from_parity otm_rate_minus_5 = Inr NaN
   \<and> ForwardPrice_put otm_rate_minus_5 = Inr NaN
   \<and> \<not> within_tolerance (ForwardPrice_put_from_parity otm_rate_minus_5)
         (ForwardPrice_put otm_rate_minus_5)"
proof -
  have t: "time_to_expiry otm_rate_minus_5 = Inr (168 / 365)"
    by (rule scenario_time_to_expiry) (simp_all add: otm_rate_minus_5_def otm_def)
  have r: "risk_free_int otm_rate_minus_5 < - 1"
    by (simp add: otm_rate_minus_5_def)
  show ?thesis
    using nan_rate_forward(5,6) [OF r t] t
    by (simp add: within_tolerance_def) (simp add: otm_rate_minus_5_def otm_def)
qed

text \<open>
  Claim C3 (the formulas of \<open>ForwardPrice\<close>). For every contract and every real number
  \<open>x\<close>: \<open>price\<close> computes \<open>x\<close> within the real numbers exactly when the dates parse to
  a time to expiry \<open>T\<close>, the continuous rate is a real number \<open>r\<close> and
  \<open>x = spot * exp (r * T)\<close>; and each of \<open>d1\<close>, \<open>d2\<close>, \<open>call\<close> and \<open>put\<close> computes \<open>x\<close>
  within the real numbers exactly when the formula of the specification is defined over
  the real numbers and \<open>x\<close> is its value, where
  \<open>d1 = (ln (price / strike) + T * v\<^sup>2 / 2) / (v * sqrt T)\<close>, \<open>d2 = d1 - v * sqrt T\<close>,
  \<open>call = (cdf d1 * price - cdf d2 * strike) * exp (- r * T)\<close> and
  \<open>put = (cdf (- d2) * strike - cdf (- d1) * price) * exp (- r * T)\<close>.
\<close>

theorem ForwardPrice_formulas:
  "(ForwardPrice_price opt = Inr (Num x) \<longleftrightarrow>
      (\<exists>T r. time_to_expiry opt = Inr T \<and> risk_free_cont opt = Num r
         \<and> x = spec_forward_price (spot_price opt) r T))
   \<and> (ForwardPrice_d1 opt = Inr (Num x) \<longleftrightarrow>
      (\<exists>T r. real_domain opt T r
         \<and> x = spec_forward_d1 (spec_forward_price (spot_price opt) r T)
                 (strike_price opt) T (volatility opt)))
   \<and> (ForwardPrice_d2 opt = Inr (Num x) \<longleftrightarrow>
      (\<exists>T r. real_domain opt T r
         \<and> x = spec_d2 (spec_forward_d1 (spec_forward_price (spot_price opt) r T)
                 (strike_price opt) T (volatility opt)) T (volatility opt)))
   \<and> (ForwardPrice_call opt = Inr (Num x) \<longleftrightarrow>
      (\<exists>T r. real_domain opt T r
         \<and> x = (let price = spec_forward_price (spot_price opt) r T;
                    d1 = spec_forward_d1 price (strike_price opt) T (volatility opt);
                    d2 = spec_d2 d1 T (volatility opt)
                in spec_forward_call d1 d2 price (strike_price opt) r T)))
   \<and> (ForwardPrice_put opt = Inr (Num x) \<longleftrightarrow>
      (\<exists>T r. real_domain opt T r
         \<and> x = (let price = spec_forward_price (spot_price opt) r T;
                    d1 = spec_forward_d1 price (strike_price opt) T (volatility opt);
                    d2 = spec_d2 d1 T (volatility opt)
                in spec_forward_put d1 d2 price (strike_price opt) r T)))"
proof (intro conjI)
  show "ForwardPrice_price opt = Inr (Num x) \<longleftrightarrow>
      (\<exists>T r. time_to_expiry opt = Inr T \<and> risk_free_cont opt = Num r
         \<and> x = spec_forward_price (spot_price opt) r T)"
  proof
    assume p: "ForwardPrice_price opt = Inr (Num x)"
    then obtain T r where "time_to_expiry opt = Inr T" "risk_free_cont opt = Num r"
      using ForwardPrice_price_dest by blast
    with p ForwardPrice_price_value [of opt T r] show "\<exists>T r. time_to_expiry opt = Inr T
        \<and> risk_free_cont opt = Num r \<and> x = spec_forward_price (spot_price opt) r T"
      by auto
  next
    assume "\<exists>T r. time_to_expiry opt = Inr T \<and> risk_free_cont opt = Num r
         \<and> x = spec_forward_price (spot_price opt) r T"
    then show "ForwardPrice_price opt = Inr (Num x)"
      using ForwardPrice_price_value by blast
  qed
qed (rule eq_Num_iff_domain, erule ForwardPrice_d1_dest ForwardPrice_d2_dest
      ForwardPrice_call_dest ForwardPrice_put_dest, erule ForwardPrice_d1_value
      ForwardPrice_d2_value ForwardPrice_call_value ForwardPrice_put_value)+

theorem ForwardPrice_formulas_witness:
  "ForwardPrice_price itm = Inr (Num (110 * exp (ln (1 + 5 / 1000) * (168 / 365))))
   \<and> ForwardPrice_d1 itm = Inr (Num (spec_forward_d1
        (110 * exp (ln (1 + 5 / 1000) * (168 / 365))) 100 (168 / 365) (3 / 10)))"
proof
  have D: "real_domain itm (168 / 365) (ln (1 + 5 / 1000))"
    by (rule itm_real_domain)
  show "ForwardPrice_price itm = Inr (Num (110 * exp (ln (1 + 5 / 1000) * (168 / 365))))"
  proof (rule ForwardPrice_formulas [THEN conjunct1, THEN iffD2])
    show "\<exists>T r. time_to_expiry itm = Inr T \<and> risk_free_cont itm = Num r
        \<and> 110 * exp (ln (1 + 5 / 1000) * (168 / 365)) = spec_forward_price (spot_price itm) r T"
      using D
      by (intro exI [of _ "168 / 365"] exI [of _ "ln (1 + 5 / 1000)"])
         (simp add: real_domain_def spec_forward_price_def itm_def)
  qed
  show "ForwardPrice_d1 itm = Inr (Num (spec_forward_d1
        (110 * exp (ln (1 + 5 / 1000) * (168 / 365))) 100 (168 / 365) (3 / 10)))"
  proof (rule ForwardPrice_formulas [THEN conjunct2, THEN conjunct1, THEN iffD2])
    show "\<exists>T r. real_domain itm T r
        \<and> spec_forward_d1 (110 * exp (ln (1 + 5 / 1000) * (168 / 365))) 100 (168 / 365) (3 / 10)
          = spec_forward_d1 (spec_forward_price (spot_price itm) r T) (strike_price itm) T
              (volatility itm)"
      using D
      by (intro exI [of _ "168 / 365"] exI [of _ "ln (1 + 5 / 1000)"])
         (simp add: spec_forward_price_def itm_def)
  qed
qed

text \<open>
  Claim C4 (the formulas of \<open>SpotPrice\<close>). For every contract, \<open>price\<close> is the spot
  price; and for every real number \<open>x\<close>, each of \<open>d1\<close>, \<open>d2\<close> and \<open>call\<close> computes \<open>x\<close>
  within the real numbers exactly when the formula of the specification is defined over
  the real numbers and \<open>x\<close> is its value, where
  \<open>d1 = (ln (price / strike) + T * (r + v\<^sup>2 / 2)) / (v * sqrt T)\<close>,
  \<open>d2 = d1 - v * sqrt T\<close> and \<open>call = cdf d1 * price - cdf d2 * strike * exp (- r * T)\<close>.
\<close>

theorem SpotPrice_formulas:
  "SpotPrice_price opt = spot_price opt
   \<and> (SpotPrice_d1 opt = Inr (Num x) \<longleftrightarrow>
      (\<exists>T r. real_domain opt T r
         \<and> x = spec_spot_d1 (spot_price opt) (strike_price opt) r T (volatility opt)))
   \<and> (SpotPrice_d2 opt = Inr (Num x) \<longleftrightarrow>
      (\<exists>T r. real_domain opt T r
         \<and> x = spec_d2 (spec_spot_d1 (spot_price opt) (strike_price opt) r T (volatility opt))
                 T (volatility opt)))
   \<and> (SpotPrice_call opt = Inr (Num x) \<longleftrightarrow>
      (\<exists>T r. real_domain opt T r
         \<and> x = (let d1 = spec_spot_d1 (spot_price opt) (strike_price opt) r T (volatility opt);
                    d2 = spec_d2 d1 T (volatility opt)
                in spec_spot_call d1 d2 (spot_price opt) (strike_price opt) r T)))"
proof (intro conjI)
  show "SpotPrice_price opt = spot_price opt"
    by (simp add: SpotPrice_price_def)
qed (rule eq_Num_iff_domain, erule SpotPrice_d1_dest SpotPrice_d2_dest SpotPrice_call_dest,
      erule SpotPrice_d1_value SpotPrice_d2_value SpotPrice_call_value)+

theorem SpotPrice_formulas_witness:
  "SpotPrice_price itm = 110
   \<and> SpotPrice_d1 itm = Inr (Num (spec_spot_d1 110 100 (ln (1 + 5 / 1000)) (168 / 365) (3 / 10)))"
proof
  have D: "real_domain itm (168 / 365) (ln (1 + 5 / 1000))"
    by (rule itm_real_domain)
  show "SpotPrice_price itm = 110"
    using SpotPrice_formulas [of itm 0, THEN conjunct1] by (simp add: itm_def)
  show "SpotPrice_d1 itm
      = Inr (Num (spec_spot_d1 110 100 (ln (1 + 5 / 1000)) (168 / 365) (3 / 10)))"
  proof (rule SpotPrice_formulas [THEN conjunct2, THEN conjunct1, THEN iffD2])
    show "\<exists>T r. real_domain itm T r
        \<and> spec_spot_d1 110 100 (ln (1 + 5 / 1000)) (168 / 365) (3 / 10)
          = spec_spot_d1 (spot_price itm) (strike_price itm) r T (volatility itm)"
      using D
      by (intro exI [of _ "168 / 365"] exI [of _ "ln (1 + 5 / 1000)"]) (simp add: itm_def)
  qed
qed







text \<open>
  Claim C7 (the spot model prices no put). For every contract, with no condition on its
  fields, \<open>SpotPrice.put\<close> and \<open>SpotPrice.put_from_parity\<close> return \<open>None\<close>: no number and
  no exception.
\<close>

theorem SpotPrice_put_is_None:
  "SpotPrice_put opt = Inr None \<and> SpotPrice_put_from_parity opt = Inr None"
  by (simp add: SpotPrice_put_def SpotPrice_put_from_parity_def)

text \<open>
  Claim C8 (the derived quantities of a contract). For every contract: the time to
  expiry is \<open>T\<close> exactly when both dates parse and \<open>T\<close> is the difference in days between
  the expiry date and the trade date divided by 365; the continuous rate is the real
  number \<open>r\<close> exactly when \<open>1 + risk_free_int\<close> is positive and \<open>r\<close> is its natural
  logarithm; the time to expiry is a function of the two date fields alone and the
  continuous rate a function of the rate field alone. Both are functions from the
  contract to a value: an access returns no changed contract.
\<close>

theorem contract_derived_quantities:
  "(time_to_expiry opt = Inr T \<longleftrightarrow>
      (\<exists>expiry trade. to_datetime (expiry_date opt) = Inr expiry
         \<and> to_datetime (trade_date opt) = Inr trade
         \<and> T = real_of_int (toordinal expiry - toordinal trade) / 365))
   \<and> (risk_free_cont opt = Num r \<longleftrightarrow>
        - 1 < risk_free_int opt \<and> r = ln (1 + risk_free_int opt))
   \<and> time_to_expiry (opt\<lparr>spot_price := a, strike_price := b, risk_free_int := c,
        dividends := d, volatility := e\<rparr>) = time_to_expiry opt
   \<and> risk_free_cont (opt\<lparr>trade_date := s, expiry_date := s', spot_price := a,
        strike_price := b, dividends := d, volatility := e\<rparr>) = risk_free_cont opt"
proof (intro conjI)
  show "time_to_expiry opt = Inr T \<longleftrightarrow>
      (\<exists>expiry trade. to_datetime (expiry_date opt) = Inr expiry
         \<and> to_datetime (trade_date opt) = Inr trade
         \<and> T = real_of_int (toordinal expiry - toordinal trade) / 365)"
    by (auto simp: time_to_expiry_def bind_exn_eq_Inr delta_days_def)
  show "risk_free_cont opt = Num r \<longleftrightarrow> - 1 < risk_free_int opt \<and> r = ln (1 + risk_free_int opt)"
    by (rule risk_free_cont_eq_Num)
qed (simp_all add: time_to_expiry_def risk_free_cont_def)

theorem contract_derived_quantities_witness:
  "time_to_expiry itm = Inr (168 / 365) \<and> risk_free_cont itm = Num (ln (1 + 5 / 1000))"
proof
  let ?e = "\<lparr>ts_year = 2023, ts_month = 5, ts_day = 10\<rparr>"
  let ?t = "\<lparr>ts_year = 2022, ts_month = 11, ts_day = 23\<rparr>"
  have p: "to_datetime (expiry_date itm) = Inr ?e" "to_datetime (trade_date itm) = Inr ?t"
    by (simp_all add: itm_def to_datetime_def is_digit_def decimal_def digit_val_def
        valid_date_def days_in_month_def is_leap_def Let_def)
  have d: "toordinal ?e - toordinal ?t = 168"
    by (simp add: toordinal_def days_before_year_def days_before_month_def days_in_month_def
        is_leap_def upt_rec [of _ "numeral _"] Let_def)
  show "time_to_expiry itm = Inr (168 / 365)"
  proof (rule contract_derived_quantities [THEN conjunct1, THEN iffD2])
    show "\<exists>expiry trade. to_datetime (expiry_date itm) = Inr expiry
        \<and> to_datetime (trade_date itm) = Inr trade
        \<and> 168 / 365 = real_of_int (toordinal expiry - toordinal trade) / 365"
      using p by (intro exI [of _ ?e] exI [of _ ?t]) (simp add: d)
  qed
  show "risk_free_cont itm = Num (ln (1 + 5 / 1000))"
    by (rule contract_derived_quantities [THEN conjunct2, THEN conjunct1, THEN iffD2])
       (simp add: itm_def)
qed




text \<open>
  Claim C10 (the dividends field is never read). For every contract and every value of
  the dividends field, every output of both classes is the same as for the contract
  itself: two contracts that differ in that field only have the same \<open>price\<close>, \<open>d1\<close>,
  \<open>d2\<close>, \<open>call\<close>, \<open>put\<close> and \<open>put_from_parity\<close> in \<open>SpotPrice\<close> and in \<open>ForwardPrice\<close>.
\<close>

theorem dividends_not_read:
  "SpotPrice_price (opt\<lparr>dividends := x\<rparr>) = SpotPrice_price opt
   \<and> SpotPrice_d1 (opt\<lparr>dividends := x\<rparr>) = SpotPrice_d1 opt
   \<and> SpotPrice_d2 (opt\<lparr>dividends := x\<rparr>) = SpotPrice_d2 opt
   \<and> SpotPrice_call (opt\<lparr>dividends := x\<rparr>) = SpotPrice_call opt
   \<and> SpotPrice_put (opt\<lparr>dividends := x\<rparr>) = SpotPrice_put opt
   \<and> SpotPrice_put_from_parity (opt\<lparr>dividends := x\<rparr>) = SpotPrice_put_from_parity opt
   \<and> ForwardPrice_price (opt\<lparr>dividends := x\<rparr>) = ForwardPrice_price opt
   \<and> ForwardPrice_d1 (opt\<lparr>dividends := x\<rparr>) = ForwardPrice_d1 opt
   \<and> ForwardPrice_d2 (opt\<lparr>dividends := x\<rparr>) = ForwardPrice_d2 opt
   \<and> ForwardPrice_call (opt\<lparr>dividends := x\<rparr>) = ForwardPrice_call opt
   \<and> ForwardPrice_put (opt\<lparr>dividends := x\<rparr>) = ForwardPrice_put opt
   \<and> ForwardPrice_put_from_parity (opt\<lparr>dividends := x\<rparr>) = ForwardPrice_put_from_parity opt"
proof -
  have t: "time_to_expiry (opt\<lparr>dividends := x\<rparr>) = time_to_expiry opt"
    by (simp add: time_to_expiry_def)
  have r: "risk_free_cont (opt\<lparr>dividends := x\<rparr>) = risk_free_cont opt"
    by (simp add: risk_free_cont_def)
  have s1: "SpotPrice_d1 (opt\<lparr>dividends := x\<rparr>) = SpotPrice_d1 opt"
    by (simp add: SpotPrice_d1_def SpotPrice_price_def t r)
  have s2: "SpotPrice_d2 (opt\<lparr>dividends := x\<rparr>) = SpotPrice_d2 opt"
    by (simp add: SpotPrice_d2_def s1 t)
  have f0: "ForwardPrice_price (opt\<lparr>dividends := x\<rparr>) = ForwardPrice_price opt"
    by (simp add: ForwardPrice_price_def t r)
  have f1: "ForwardPrice_d1 (opt\<lparr>dividends := x\<rparr>) = ForwardPrice_d1 opt"
    by (simp add: ForwardPrice_d1_def f0 t)
  have f2: "ForwardPrice_d2 (opt\<lparr>dividends := x\<rparr>) = ForwardPrice_d2 opt"
    by (simp add: ForwardPrice_d2_def f1 t)
  have fc: "ForwardPrice_call (opt\<lparr>dividends := x\<rparr>) = ForwardPrice_call opt"
    by (simp add: ForwardPrice_call_def f0 f1 f2 t r)
  show ?thesis
    by (simp add: s1 s2 f0 f1 f2 fc t r SpotPrice_price_def SpotPrice_call_def SpotPrice_put_def
        SpotPrice_put_from_parity_def ForwardPrice_put_def ForwardPrice_put_from_parity_def)
qed

end
